theory Spec2Isabelle
  imports Main "HOL-Library.Word" "HOL-Library.Sublist"
begin

section \<open>Data model of pkg/utils/selector.go\<close>

text \<open>
  A Go \<open>map[string]string\<close> (labels, annotations, selector sets) is an association list
  with pairwise different keys; \<open>len(m) > 0\<close> is \<open>m \<noteq> []\<close>, a nil map is \<open>[]\<close>, and
  ranging over the map visits the entries in the order of the list (Go leaves the order
  open, so every order of the list is one the program may take).
\<close>

type_synonym Set = "(string \<times> string) list"

text \<open>The fields of \<open>v1.Pod\<close> and \<open>v1.Node\<close> that the selector reads.\<close>

record Pod =
  Namespace :: string
  Name :: string
  Labels :: Set
  Annotations :: Set
  Spec_NodeName :: string
  Status_Phase :: string

record Node =
  Node_Name :: string
  Node_Labels :: Set

text \<open>\<open>v1alpha1.SelectorSpec\<close>.\<close>

record SelectorSpec =
  Namespaces :: "string list"
  Nodes :: "string list"
  Pods :: "(string \<times> string list) list"
  NodeSelectors :: Set
  FieldSelectors :: Set
  LabelSelectors :: Set
  AnnotationSelectors :: Set
  PodPhaseSelectors :: "string list"

section \<open>Errors\<close>

text \<open>The operators of \<open>k8s.io/apimachinery/pkg/selection\<close>.\<close>

datatype Operator =
  DoesNotExist | Equals | DoubleEquals | In | NotEquals | NotIn | Exists | GreaterThan | LessThan

text \<open>
  The errors of the file, one constructor for each place an error is made:
  \<^item> \<open>NotFound\<close>: an error of the client for which \<open>apierrors.IsNotFound\<close> holds;
  \<^item> \<open>ClientError\<close>: any other error of \<open>c.Get\<close> or \<open>c.List\<close>;
  \<^item> \<open>ParseError\<close>: an error of \<open>labels.Parse\<close>;
  \<^item> \<open>NumError\<close>: an error of \<open>strconv.Atoi\<close> (the string, and whether it is a range error);
  \<^item> \<open>UnsupportedOperator\<close>: \<open>fmt.Errorf("unsupported operator: %s", op)\<close>;
  \<^item> \<open>NoPodSelected\<close>: \<open>errors.New("no pod is selected")\<close>;
  \<^item> \<open>EmptyPodList\<close>: \<open>errors.New("cannot generate pods from empty list")\<close>;
  \<^item> \<open>ValueBelowOrEqualZero\<close>:
    \<open>errors.New("cannot select any pod as value below or equal 0")\<close>;
  \<^item> \<open>InvalidFixedPercentage\<close>:
    \<open>fmt.Errorf("fixed percentage value of %d is invalid, Must be (0,100]", p)\<close>;
  \<^item> \<open>InvalidMaxPercentage\<close>:
    \<open>fmt.Errorf("fixed percentage value of %d is invalid, Must be [0-100]", p)\<close>;
  \<^item> \<open>ModeNotSupported\<close>: \<open>fmt.Errorf("mode %s not supported", mode)\<close>;
  \<^item> \<open>Panic\<close>: a run-time panic (an index out of range, \<open>rand.Intn\<close> of an argument
    that is not positive).
\<close>

datatype error =
    NotFound
  | ClientError string
  | ParseError string
  | NumError string bool
  | UnsupportedOperator Operator
  | NoPodSelected
  | EmptyPodList
  | ValueBelowOrEqualZero
  | InvalidFixedPercentage int
  | InvalidMaxPercentage int
  | ModeNotSupported string
  | Panic string

fun IsNotFound :: "error \<Rightarrow> bool" where
  "IsNotFound NotFound = True"
| "IsNotFound _ = False"

section \<open>Library functions the file calls\<close>

subsection \<open>strings.Join\<close>

fun Join :: "string list \<Rightarrow> string \<Rightarrow> string" where
  "Join [] sep = []"
| "Join [x] sep = x"
| "Join (x # y # ys) sep = x @ sep @ Join (y # ys) sep"

subsection \<open>strconv.Atoi\<close>

text \<open>
  \<open>strconv.Atoi\<close> is Go's standard library: an optional sign, then one or more decimal
  digits; a syntax error otherwise, and a range error when the value does not fit the
  64-bit \<open>int\<close>.
\<close>

text \<open>The value of a decimal digit: the bytes \<open>48\<close> to \<open>57\<close> are \<open>0\<close> to \<open>9\<close>.\<close>

definition digit_value :: "char \<Rightarrow> nat option" where
  "digit_value c =
     (let n = (of_char c :: nat) in if 48 \<le> n \<and> n \<le> 57 then Some (n - 48) else None)"

fun digits_value :: "string \<Rightarrow> nat \<Rightarrow> nat option" where
  "digits_value [] n = Some n"
| "digits_value (c # cs) n =
     (case digit_value c of None \<Rightarrow> None | Some d \<Rightarrow> digits_value cs (10 * n + d))"

definition Atoi :: "string \<Rightarrow> error + int" where
  "Atoi s =
     (let neg = (s \<noteq> [] \<and> hd s = CHR ''-'');
          body = (if s \<noteq> [] \<and> (hd s = CHR ''-'' \<or> hd s = CHR ''+'') then tl s else s)
      in if body = [] then Inl (NumError s False)
         else case digits_value body 0 of
                None \<Rightarrow> Inl (NumError s False)
              | Some n \<Rightarrow>
                  if neg then (if n \<le> 2 ^ 63 then Inr (- int n) else Inl (NumError s True))
                  else (if n < 2 ^ 63 then Inr (int n) else Inl (NumError s True)))"

subsection \<open>Labels, requirements and selectors\<close>

text \<open>
  \<open>labels.Requirement\<close> and \<open>labels.Selector\<close> of \<open>k8s.io/apimachinery/pkg/labels\<close>:
  a selector is the list of its requirements (\<open>internalSelector\<close>), \<open>Empty()\<close> is
  "no requirement", and \<open>Requirements()\<close> returns the list.
\<close>

record Requirement =
  key :: string
  operator :: Operator
  strValues :: "string list"

type_synonym Selector = "Requirement list"

definition Has :: "Set \<Rightarrow> string \<Rightarrow> bool" where
  "Has ls k = (map_of ls k \<noteq> None)"

definition Get :: "Set \<Rightarrow> string \<Rightarrow> string" where
  "Get ls k = (case map_of ls k of None \<Rightarrow> [] | Some v \<Rightarrow> v)"

definition Empty :: "Selector \<Rightarrow> bool" where
  "Empty s = (length s = 0)"

text \<open>
  \<open>Requirement.Matches\<close>. For the two operators the namespace and phase filters let
  through it is the presence (\<open>Exists\<close>) or absence (\<open>DoesNotExist\<close>) of the key; the
  other operators compare the key's value as the library does.
\<close>

definition Requirement_Matches :: "Requirement \<Rightarrow> Set \<Rightarrow> bool" where
  "Requirement_Matches r ls =
     (case operator r of
        Exists \<Rightarrow> Has ls (key r)
      | DoesNotExist \<Rightarrow> \<not> Has ls (key r)
      | In \<Rightarrow> Has ls (key r) \<and> Get ls (key r) \<in> set (strValues r)
      | Equals \<Rightarrow> Has ls (key r) \<and> Get ls (key r) \<in> set (strValues r)
      | DoubleEquals \<Rightarrow> Has ls (key r) \<and> Get ls (key r) \<in> set (strValues r)
      | NotIn \<Rightarrow> \<not> Has ls (key r) \<or> Get ls (key r) \<notin> set (strValues r)
      | NotEquals \<Rightarrow> \<not> Has ls (key r) \<or> Get ls (key r) \<notin> set (strValues r)
      | GreaterThan \<Rightarrow>
          Has ls (key r) \<and>
          (case (Atoi (Get ls (key r)), strValues r) of
             (Inr lsValue, [v]) \<Rightarrow> (case Atoi v of Inr rValue \<Rightarrow> lsValue > rValue | Inl _ \<Rightarrow> False)
           | _ \<Rightarrow> False)
      | LessThan \<Rightarrow>
          Has ls (key r) \<and>
          (case (Atoi (Get ls (key r)), strValues r) of
             (Inr lsValue, [v]) \<Rightarrow> (case Atoi v of Inr rValue \<Rightarrow> lsValue < rValue | Inl _ \<Rightarrow> False)
           | _ \<Rightarrow> False))"

text \<open>\<open>Selector.Matches\<close>: every requirement matches.\<close>

definition Selector_Matches :: "Selector \<Rightarrow> Set \<Rightarrow> bool" where
  "Selector_Matches s ls = list_all (\<lambda>r. Requirement_Matches r ls) s"

text \<open>\<open>labels.SelectorFromSet\<close>: one \<open>Equals\<close> requirement for each entry of the set.\<close>

definition SelectorFromSet :: "Set \<Rightarrow> Selector" where
  "SelectorFromSet ls = map (\<lambda>(k, v). \<lparr>key = k, operator = Equals, strValues = [v]\<rparr>) ls"

subsection \<open>math/rand\<close>

text \<open>
  The process-wide random source is the list of the raw values it will hand out, passed
  through every function that draws: \<open>rand.Intn(n)\<close> panics when \<open>n \<le> 0\<close>, and takes
  the next raw value reduced to \<open>[0, n)\<close> otherwise. A computation that asks for a value
  of the exhausted list has not returned: \<open>None\<close>.
\<close>

type_synonym rng = "nat list"

type_synonym 'a rand = "rng \<Rightarrow> ((error + 'a) \<times> rng) option"

definition rand_Intn :: "int \<Rightarrow> int rand" where
  "rand_Intn n rs =
     (if n \<le> 0 then Some (Inl (Panic ''invalid argument to Intn''), rs)
      else case rs of [] \<Rightarrow> None | r # rs' \<Rightarrow> Some (Inr (int r mod n), rs'))"

section \<open>The fixed-index random sampler\<close>

text \<open>
  Go's \<open>uint\<close> is the 64-bit word of the platforms the controller is built for, and
  \<open>int(x)\<close> of a \<open>uint\<close> reads the same bits as a signed number (\<open>sint\<close>).
\<close>

type_synonym uint = "64 word"

text \<open>\<open>for i := start; i < end; i++ { indexes = append(indexes, i) }\<close>\<close>

function RandomFixedIndexes_range :: "uint \<Rightarrow> uint \<Rightarrow> uint list \<Rightarrow> uint list" where
  "RandomFixedIndexes_range i end' indexes =
     (if i < end' then RandomFixedIndexes_range (i + 1) end' (indexes @ [i]) else indexes)"
  by pat_completeness auto
termination
proof (relation "measure (\<lambda>(i, end', indexes). unat end' - unat i)")
  show "wf (measure (\<lambda>(i, end', indexes). unat end' - unat i))" by simp
next
  fix i end' :: uint and indexes :: "uint list"
  assume lt: "i < end'"
  then have "unat end' - unat (i + 1) < unat end' - unat i"
    by unat_arith
  then show "((i + 1, end', indexes @ [i]), (i, end', indexes))
      \<in> measure (\<lambda>(i, end', indexes). unat end' - unat i)"
    by simp
qed

text \<open>
  The rejection loop \<open>for i := 0; i < int(count); { ... }\<close>: a draw that is already a key
  of \<open>m\<close> is thrown away, a new one is stored in \<open>m\<close> and appended.
\<close>

function RandomFixedIndexes_loop ::
  "uint \<Rightarrow> uint \<Rightarrow> uint \<Rightarrow> int \<Rightarrow> (uint \<rightharpoonup> uint) \<Rightarrow> uint list \<Rightarrow> uint list rand" where
  "RandomFixedIndexes_loop start end' count i m indexes rs =
     (if i < sint count then
        (case rand_Intn (sint (end' - start)) rs of
           None \<Rightarrow> None
         | Some (Inl err, rs') \<Rightarrow> Some (Inl err, rs')
         | Some (Inr r, rs') \<Rightarrow>
             (let index = word_of_int r + start in
              if m index \<noteq> None
              then RandomFixedIndexes_loop start end' count i m indexes rs'
              else RandomFixedIndexes_loop start end' count (i + 1)
                     (m(index \<mapsto> index)) (indexes @ [index]) rs'))
      else Some (Inr indexes, rs))"
  by pat_completeness auto
termination
  by (relation "measure (\<lambda>(start, end', count, i, m, indexes, rs). length rs)")
     (auto simp: rand_Intn_def split: if_splits list.splits)

definition RandomFixedIndexes :: "uint \<Rightarrow> uint \<Rightarrow> uint \<Rightarrow> uint list rand" where
  "RandomFixedIndexes start end' count rs =
     (if end' < start then Some (Inr [], rs)
      else if count > end' - start
        then Some (Inr (RandomFixedIndexes_range start end' []), rs)
      else RandomFixedIndexes_loop start end' count 0 Map.empty [] rs)"

section \<open>The collaborators\<close>

text \<open>
  \<open>client.Client\<close> of controller-runtime: \<open>c.Get\<close> of a pod by namespace and name,
  \<open>c.List\<close> of the pods under list options, and the same two calls for nodes. Each call
  returns the object or an error.
\<close>

record ListOptions =
  LabelSelector :: "Selector option"
  FieldSelector :: "Set option"

record Client =
  Get_Pod :: "string \<Rightarrow> string \<Rightarrow> error + Pod"
  List_Pods :: "ListOptions \<Rightarrow> error + Pod list"
  Get_Node :: "string \<Rightarrow> error + Node"
  List_Nodes :: "ListOptions \<Rightarrow> error + Node list"

text \<open>
  What the file reads besides its arguments and the client: the two patterns of
  \<open>common.ControllerCfg\<close>, \<open>regexp.MatchString\<close>, \<open>labels.Parse\<close>, the \<open>String()\<close> of
  \<open>label.Label\<close>, and the two hooks of \<open>mock.On\<close> (\<open>None\<close> when no hook is set).
\<close>

record Env =
  AllowedNamespaces :: string
  IgnoredNamespaces :: string
  regexp_MatchString :: "string \<Rightarrow> string \<Rightarrow> error + bool"
  labels_Parse :: "string \<Rightarrow> error + Selector"
  Label_String :: "Set \<Rightarrow> string"
  MockSelectAndFilterPods :: "Pod list option"
  MockSelectedAndFilterPodsError :: "error option"

text \<open>The \<open>SelectSpec\<close> interface: what its three getters return.\<close>

record SelectSpec =
  GetSelector :: SelectorSpec
  GetMode :: string
  GetValue :: string

text \<open>
  Modelled from the spec: the constants of \<open>v1alpha1.PodMode\<close> (a string type) are
  declared in \<open>api/v1alpha1\<close>; their values are the wire names
  \<open>one\<close>, \<open>all\<close>, \<open>fixed\<close>, \<open>fixed-percent\<close>, \<open>random-max-percent\<close>.
\<close>

definition OnePodMode :: string where "OnePodMode = ''one''"
definition AllPodMode :: string where "AllPodMode = ''all''"
definition FixedPodMode :: string where "FixedPodMode = ''fixed''"
definition FixedPercentPodMode :: string where "FixedPercentPodMode = ''fixed-percent''"
definition RandomMaxPercentPodMode :: string where
  "RandomMaxPercentPodMode = ''random-max-percent''"

section \<open>The node filter\<close>

text \<open>The inner loop of \<open>filterPodByNode\<close>: one pod against every node, appending the
  pod once for each node whose name is the pod's node name.\<close>

fun filterPodByNode_nodes :: "Pod \<Rightarrow> Node list \<Rightarrow> Pod list \<Rightarrow> Pod list" where
  "filterPodByNode_nodes pod [] filteredList = filteredList"
| "filterPodByNode_nodes pod (node # nodes) filteredList =
     filterPodByNode_nodes pod nodes
       (if Spec_NodeName pod = Node_Name node then filteredList @ [pod] else filteredList)"

fun filterPodByNode_pods :: "Pod list \<Rightarrow> Node list \<Rightarrow> Pod list \<Rightarrow> Pod list" where
  "filterPodByNode_pods [] nodes filteredList = filteredList"
| "filterPodByNode_pods (pod # pods) nodes filteredList =
     filterPodByNode_pods pods nodes (filterPodByNode_nodes pod nodes filteredList)"

definition filterPodByNode :: "Pod list \<Rightarrow> Node list \<Rightarrow> Pod list" where
  "filterPodByNode pods nodes =
     (if length nodes = 0 then [] else filterPodByNode_pods pods nodes [])"

section \<open>Sampling by mode\<close>

text \<open>\<open>pods[index]\<close>: a panic when the index is out of range.\<close>

definition index_pod :: "Pod list \<Rightarrow> int \<Rightarrow> error + Pod" where
  "index_pod pods index =
     (if 0 \<le> index \<and> index < int (length pods) then Inr (pods ! nat index)
      else Inl (Panic ''index out of range''))"

text \<open>The loop of \<open>getFixedSubListFromPodList\<close> over the drawn indexes.\<close>

fun getFixedSubListFromPodList_loop ::
  "Pod list \<Rightarrow> uint list \<Rightarrow> Pod list \<Rightarrow> error + Pod list" where
  "getFixedSubListFromPodList_loop pods [] filteredPods = Inr filteredPods"
| "getFixedSubListFromPodList_loop pods (index # indexes) filteredPods =
     (case index_pod pods (uint index) of
        Inl err \<Rightarrow> Inl err
      | Inr pod \<Rightarrow> getFixedSubListFromPodList_loop pods indexes (filteredPods @ [pod]))"

definition getFixedSubListFromPodList :: "Pod list \<Rightarrow> int \<Rightarrow> Pod list rand" where
  "getFixedSubListFromPodList pods num rs =
     (case RandomFixedIndexes 0 (word_of_nat (length pods)) (word_of_int num) rs of
        None \<Rightarrow> None
      | Some (Inl err, rs') \<Rightarrow> Some (Inl err, rs')
      | Some (Inr indexes, rs') \<Rightarrow> Some (getFixedSubListFromPodList_loop pods indexes [], rs'))"

text \<open>
  \<open>int(math.Floor(float64(len(pods)) * float64(percentage) / 100))\<close> for a percentage
  in \<open>[0, 100]\<close>. For a pool shorter than \<open>2 ^ 46\<close> the product is a whole number below
  \<open>2 ^ 53\<close>, so the \<open>float64\<close> product is exact; the quotient is rounded by less than
  \<open>1/100\<close>, which cannot reach the next whole number, so its floor is the integer
  quotient. The properties of the percentage modes are stated for such pools.
\<close>

definition percent_num :: "Pod list \<Rightarrow> int \<Rightarrow> int" where
  "percent_num pods percentage = (int (length pods) * percentage) div 100"

definition filterPodsByMode :: "Pod list \<Rightarrow> string \<Rightarrow> string \<Rightarrow> Pod list rand" where
  "filterPodsByMode pods mode value rs =
     (if length pods = 0 then Some (Inl EmptyPodList, rs)
      else if mode = OnePodMode then
        (case rand_Intn (int (length pods)) rs of
           None \<Rightarrow> None
         | Some (Inl err, rs') \<Rightarrow> Some (Inl err, rs')
         | Some (Inr index, rs') \<Rightarrow>
             (case index_pod pods index of
                Inl err \<Rightarrow> Some (Inl err, rs')
              | Inr pod \<Rightarrow> Some (Inr [pod], rs')))
      else if mode = AllPodMode then Some (Inr pods, rs)
      else if mode = FixedPodMode then
        (case Atoi value of
           Inl err \<Rightarrow> Some (Inl err, rs)
         | Inr num0 \<Rightarrow>
             (let num = (if int (length pods) < num0 then int (length pods) else num0)
              in if num \<le> 0 then Some (Inl ValueBelowOrEqualZero, rs)
                 else getFixedSubListFromPodList pods num rs))
      else if mode = FixedPercentPodMode then
        (case Atoi value of
           Inl err \<Rightarrow> Some (Inl err, rs)
         | Inr percentage \<Rightarrow>
             if percentage = 0 then Some (Inl ValueBelowOrEqualZero, rs)
             else if percentage < 0 \<or> percentage > 100
               then Some (Inl (InvalidFixedPercentage percentage), rs)
             else getFixedSubListFromPodList pods (percent_num pods percentage) rs)
      else if mode = RandomMaxPercentPodMode then
        (case Atoi value of
           Inl err \<Rightarrow> Some (Inl err, rs)
         | Inr maxPercentage \<Rightarrow>
             if maxPercentage = 0 then Some (Inl ValueBelowOrEqualZero, rs)
             else if maxPercentage < 0 \<or> maxPercentage > 100
               then Some (Inl (InvalidMaxPercentage maxPercentage), rs)
             else
               (case rand_Intn (maxPercentage + 1) rs of
                  None \<Rightarrow> None
                | Some (Inl err, rs') \<Rightarrow> Some (Inl err, rs')
                | Some (Inr percentage, rs') \<Rightarrow>
                    getFixedSubListFromPodList pods (percent_num pods percentage) rs'))
      else Some (Inl (ModeNotSupported mode), rs))"

section \<open>The requirement filters\<close>

text \<open>
  The first loop of \<open>filterByNamespaceSelector\<close> and of \<open>filterByPhaseSelector\<close>:
  the requirements are split into the including and the excluding group, and any other
  operator is an error.
\<close>

fun split_requirements ::
  "Requirement list \<Rightarrow> Requirement list \<Rightarrow> Requirement list
     \<Rightarrow> error + (Requirement list \<times> Requirement list)" where
  "split_requirements [] reqIncl reqExcl = Inr (reqIncl, reqExcl)"
| "split_requirements (req # reqs) reqIncl reqExcl =
     (if operator req = Exists then split_requirements reqs (reqIncl @ [req]) reqExcl
      else if operator req = DoesNotExist then split_requirements reqs reqIncl (reqExcl @ [req])
      else Inl (UnsupportedOperator (operator req)))"

text \<open>\<open>for _, req := range reqIncl { if req.Matches(selector) { included = true; break } }\<close>\<close>

fun include_loop :: "Requirement list \<Rightarrow> Set \<Rightarrow> bool \<Rightarrow> bool" where
  "include_loop [] selector included = included"
| "include_loop (req # reqs) selector included =
     (if Requirement_Matches req selector then True else include_loop reqs selector included)"

text \<open>\<open>for _, req := range reqExcl { if !req.Matches(selector) { included = false; break } }\<close>\<close>

fun exclude_loop :: "Requirement list \<Rightarrow> Set \<Rightarrow> bool \<Rightarrow> bool" where
  "exclude_loop [] selector included = included"
| "exclude_loop (req # reqs) selector included =
     (if \<not> Requirement_Matches req selector then False else exclude_loop reqs selector included)"

definition pod_included :: "Requirement list \<Rightarrow> Requirement list \<Rightarrow> Set \<Rightarrow> bool" where
  "pod_included reqIncl reqExcl selector =
     exclude_loop reqExcl selector (include_loop reqIncl selector (length reqIncl = 0))"

definition filterByNamespaceSelector :: "Pod list \<Rightarrow> Selector \<Rightarrow> error + Pod list" where
  "filterByNamespaceSelector pods namespaces =
     (if Empty namespaces then Inr pods
      else case split_requirements namespaces [] [] of
             Inl err \<Rightarrow> Inl err
           | Inr (reqIncl, reqExcl) \<Rightarrow>
               Inr (filter (\<lambda>pod. pod_included reqIncl reqExcl [(Namespace pod, [])]) pods))"

definition filterByPhaseSelector :: "Pod list \<Rightarrow> Selector \<Rightarrow> error + Pod list" where
  "filterByPhaseSelector pods phases =
     (if Empty phases then Inr pods
      else case split_requirements phases [] [] of
             Inl err \<Rightarrow> Inl err
           | Inr (reqIncl, reqExcl) \<Rightarrow>
               Inr (filter (\<lambda>pod. pod_included reqIncl reqExcl [(Status_Phase pod, [])]) pods))"

definition filterByAnnotations :: "Pod list \<Rightarrow> Selector \<Rightarrow> Pod list" where
  "filterByAnnotations pods annotations =
     (if Empty annotations then pods
      else filter (\<lambda>pod. Selector_Matches annotations (Annotations pod)) pods)"

section \<open>The namespace policy\<close>

definition IsAllowedNamespaces :: "Env \<Rightarrow> string \<Rightarrow> bool" where
  "IsAllowedNamespaces env namespace =
     (if AllowedNamespaces env \<noteq> [] then
        (case regexp_MatchString env (AllowedNamespaces env) namespace of
           Inl err \<Rightarrow> False
         | Inr matched \<Rightarrow> matched)
      else if IgnoredNamespaces env \<noteq> [] then
        (case regexp_MatchString env (IgnoredNamespaces env) namespace of
           Inl err \<Rightarrow> False
         | Inr matched \<Rightarrow> \<not> matched)
      else True)"

definition filterByNamespaces :: "Env \<Rightarrow> Pod list \<Rightarrow> Pod list" where
  "filterByNamespaces env pods = filter (\<lambda>pod. IsAllowedNamespaces env (Namespace pod)) pods"

definition parseSelector :: "Env \<Rightarrow> string \<Rightarrow> error + Selector" where
  "parseSelector env str =
     (case labels_Parse env str of Inl err \<Rightarrow> Inl err | Inr selector \<Rightarrow> Inr selector)"

section \<open>The selection pipeline\<close>

text \<open>The explicit branch: the loop over the names of one namespace.\<close>

fun SelectPods_names :: "Client \<Rightarrow> string \<Rightarrow> string list \<Rightarrow> Pod list \<Rightarrow> error + Pod list" where
  "SelectPods_names c ns [] pods = Inr pods"
| "SelectPods_names c ns (name # names) pods =
     (case Get_Pod c ns name of
        Inr pod \<Rightarrow> SelectPods_names c ns names (pods @ [pod])
      | Inl err \<Rightarrow>
          if IsNotFound err then SelectPods_names c ns names pods else Inl err)"

text \<open>
  The loop over the entries of \<open>selector.Pods\<close>. The call of \<open>IsAllowedNamespaces\<close> in
  this loop only writes a log line, so it is not part of the result.
\<close>

fun SelectPods_explicit ::
  "Client \<Rightarrow> (string \<times> string list) list \<Rightarrow> Pod list \<Rightarrow> error + Pod list" where
  "SelectPods_explicit c [] pods = Inr pods"
| "SelectPods_explicit c ((ns, names) # rest) pods =
     (case SelectPods_names c ns names pods of
        Inl err \<Rightarrow> Inl err
      | Inr pods' \<Rightarrow> SelectPods_explicit c rest pods')"

text \<open>The loop over \<open>selector.Nodes\<close>: a node whose fetch fails, for any reason, is left out.\<close>

fun SelectPods_nodes :: "Client \<Rightarrow> string list \<Rightarrow> Node list \<Rightarrow> Node list" where
  "SelectPods_nodes c [] nodes = nodes"
| "SelectPods_nodes c (nodename # rest) nodes =
     (case Get_Node c nodename of
        Inr node \<Rightarrow> SelectPods_nodes c rest (nodes @ [node])
      | Inl err \<Rightarrow> SelectPods_nodes c rest nodes)"

definition SelectPods :: "Env \<Rightarrow> Client \<Rightarrow> SelectorSpec \<Rightarrow> error + Pod list" where
  "SelectPods env c selector =
     (if length (Pods selector) > 0 then SelectPods_explicit c (Pods selector) []
      else
        case List_Pods c
               \<lparr>LabelSelector =
                  (if length (LabelSelectors selector) > 0
                   then Some (SelectorFromSet (LabelSelectors selector)) else None),
                FieldSelector =
                  (if length (FieldSelectors selector) > 0
                   then Some (FieldSelectors selector) else None)\<rparr> of
          Inl err \<Rightarrow> Inl err
        | Inr items \<Rightarrow>
           (case
              (if length (Nodes selector) > 0 \<or> length (NodeSelectors selector) > 0 then
                 (let nodes = (if length (Nodes selector) > 0
                               then SelectPods_nodes c (Nodes selector) [] else [])
                  in if length (NodeSelectors selector) > 0 then
                       (case List_Nodes c
                               \<lparr>LabelSelector = Some (SelectorFromSet (NodeSelectors selector)),
                                FieldSelector = None\<rparr> of
                          Inl err \<Rightarrow> Inl err
                        | Inr nodeItems \<Rightarrow> Inr (filterPodByNode items (nodes @ nodeItems)))
                     else Inr (filterPodByNode items nodes))
               else Inr items) of
              Inl err \<Rightarrow> Inl err
            | Inr pods0 \<Rightarrow>
               (case parseSelector env (Join (Namespaces selector) '','') of
                  Inl err \<Rightarrow> Inl err
                | Inr namespaceSelector \<Rightarrow>
                   (case filterByNamespaceSelector (filterByNamespaces env pods0)
                           namespaceSelector of
                      Inl err \<Rightarrow> Inl err
                    | Inr pods1 \<Rightarrow>
                       (case parseSelector env (Label_String env (AnnotationSelectors selector)) of
                          Inl err \<Rightarrow> Inl err
                        | Inr annotationsSelector \<Rightarrow>
                           (case parseSelector env (Join (PodPhaseSelectors selector) '','') of
                              Inl err \<Rightarrow> Inl err
                            | Inr phaseSelector \<Rightarrow>
                                filterByPhaseSelector
                                  (filterByAnnotations pods1 annotationsSelector)
                                  phaseSelector))))))"

section \<open>The membership tester\<close>

text \<open>The inner loop of the explicit check: \<open>meet\<close> is set when a listed name is the pod's.\<close>

fun CheckPodMeetSelector_names :: "Pod \<Rightarrow> string list \<Rightarrow> bool \<Rightarrow> bool" where
  "CheckPodMeetSelector_names pod [] meet = meet"
| "CheckPodMeetSelector_names pod (name # names) meet =
     CheckPodMeetSelector_names pod names (if Name pod = name then True else meet)"

text \<open>
  The loop over the entries of \<open>selector.Pods\<close>. \<open>False\<close>: the loop returned
  \<open>false, nil\<close>; \<open>True\<close>: the loop ended and the function goes on.
\<close>

fun CheckPodMeetSelector_pods :: "Pod \<Rightarrow> (string \<times> string list) list \<Rightarrow> bool \<Rightarrow> bool" where
  "CheckPodMeetSelector_pods pod [] meet = True"
| "CheckPodMeetSelector_pods pod ((ns, names) # rest) meet =
     (if Namespace pod \<noteq> ns then CheckPodMeetSelector_pods pod rest meet
      else
        (let meet' = CheckPodMeetSelector_names pod names meet
         in if \<not> meet' then False else CheckPodMeetSelector_pods pod rest meet'))"

definition CheckPodMeetSelector :: "Env \<Rightarrow> Pod \<Rightarrow> SelectorSpec \<Rightarrow> error + bool" where
  "CheckPodMeetSelector env pod selector =
     (if length (Pods selector) > 0 \<and> \<not> CheckPodMeetSelector_pods pod (Pods selector) False
      then Inr False
      else if length (LabelSelectors selector) > 0 \<and>
              (length (Labels pod) = 0 \<or>
               \<not> Selector_Matches (SelectorFromSet (LabelSelectors selector)) (Labels pod))
      then Inr False
      else
        case parseSelector env (Join (Namespaces selector) '','') of
          Inl err \<Rightarrow> Inl err
        | Inr namespaceSelector \<Rightarrow>
           (case filterByNamespaceSelector [pod] namespaceSelector of
              Inl err \<Rightarrow> Inl err
            | Inr pods1 \<Rightarrow>
               (case parseSelector env (Label_String env (AnnotationSelectors selector)) of
                  Inl err \<Rightarrow> Inl err
                | Inr annotationsSelector \<Rightarrow>
                   (case parseSelector env (Join (PodPhaseSelectors selector) '','') of
                      Inl err \<Rightarrow> Inl err
                    | Inr phaseSelector \<Rightarrow>
                       (case filterByPhaseSelector
                               (filterByAnnotations pods1 annotationsSelector) phaseSelector of
                          Inl err \<Rightarrow> Inl err
                        | Inr pods \<Rightarrow> Inr (length pods > 0))))))"

section \<open>Select, then sample\<close>

definition SelectAndFilterPods :: "Env \<Rightarrow> Client \<Rightarrow> SelectSpec \<Rightarrow> Pod list rand" where
  "SelectAndFilterPods env c spec rs =
     (case MockSelectAndFilterPods env of
        Some pods \<Rightarrow> Some (Inr pods, rs)
      | None \<Rightarrow>
         (case MockSelectedAndFilterPodsError env of
            Some err \<Rightarrow> Some (Inl err, rs)
          | None \<Rightarrow>
             (case SelectPods env c (GetSelector spec) of
                Inl err \<Rightarrow> Some (Inl err, rs)
              | Inr pods \<Rightarrow>
                  if length pods = 0 then Some (Inl NoPodSelected, rs)
                  else filterPodsByMode pods (GetMode spec) (GetValue spec) rs)))"

section \<open>Notions the properties are stated with\<close>

text \<open>
  The indexes that the raw values of the random source give in the range
  \<open>[start, end)\<close>: what \<open>uint(rand.Intn(int(end-start))) + start\<close> is for each raw value
  in turn.
\<close>

definition draws :: "uint \<Rightarrow> uint \<Rightarrow> rng \<Rightarrow> uint list" where
  "draws start end' rs = map (\<lambda>r. word_of_int (int r mod sint (end' - start)) + start) rs"

text \<open>
  The membership rule of the requirement matcher in the words of the specification:
  included when the expression has no \<open>Exists\<close> requirement or the key of one of them is
  in the key set, and not excluded by a \<open>DoesNotExist\<close> requirement whose key is in the
  key set.
\<close>

definition requirement_keeps :: "Selector \<Rightarrow> Set \<Rightarrow> bool" where
  "requirement_keeps expr keySet =
     ((list_all (\<lambda>r. operator r \<noteq> Exists) expr
       \<or> list_ex (\<lambda>r. operator r = Exists \<and> Has keySet (key r)) expr)
      \<and> list_all (\<lambda>r. operator r = DoesNotExist \<longrightarrow> \<not> Has keySet (key r)) expr)"

text \<open>
  What the explicit branch of \<open>SelectPods\<close> looks up: the result of \<open>c.Get\<close> for every
  listed name of every listed namespace, in the order of the lists.
\<close>

definition explicit_lookups :: "Client \<Rightarrow> (string \<times> string list) list \<Rightarrow> (error + Pod) list" where
  "explicit_lookups c pods = concat (map (\<lambda>(ns, names). map (Get_Pod c ns) names) pods)"

definition fatal :: "error + Pod \<Rightarrow> bool" where
  "fatal r = (case r of Inl err \<Rightarrow> \<not> IsNotFound err | Inr pod \<Rightarrow> False)"

definition found :: "(error + Pod) list \<Rightarrow> Pod list" where
  "found rs = concat (map (\<lambda>r. case r of Inl err \<Rightarrow> [] | Inr pod \<Rightarrow> [pod]) rs)"

text \<open>
  What the explicit branch makes of the lookups: a pod that was found is appended, a
  lookup that was not found is skipped, and the first other error ends the call.
\<close>

fun resolve :: "(error + Pod) list \<Rightarrow> Pod list \<Rightarrow> error + Pod list" where
  "resolve [] pods = Inr pods"
| "resolve (Inr pod # rs) pods = resolve rs (pods @ [pod])"
| "resolve (Inl err # rs) pods = (if IsNotFound err then resolve rs pods else Inl err)"

text \<open>
  The namespace, annotation and phase stages in the order both \<open>SelectPods\<close> and
  \<open>CheckPodMeetSelector\<close> run them, as one function of the pods that enter the first
  stage.
\<close>

definition requirement_stages :: "Env \<Rightarrow> SelectorSpec \<Rightarrow> Pod list \<Rightarrow> error + Pod list" where
  "requirement_stages env selector pods =
     (case parseSelector env (Join (Namespaces selector) '','') of
        Inl err \<Rightarrow> Inl err
      | Inr namespaceSelector \<Rightarrow>
         (case filterByNamespaceSelector pods namespaceSelector of
            Inl err \<Rightarrow> Inl err
          | Inr pods1 \<Rightarrow>
             (case parseSelector env (Label_String env (AnnotationSelectors selector)) of
                Inl err \<Rightarrow> Inl err
              | Inr annotationsSelector \<Rightarrow>
                 (case parseSelector env (Join (PodPhaseSelectors selector) '','') of
                    Inl err \<Rightarrow> Inl err
                  | Inr phaseSelector \<Rightarrow>
                      filterByPhaseSelector
                        (filterByAnnotations pods1 annotationsSelector) phaseSelector))))"

text \<open>The label requirement of a selector on one pod: no label selector, or the pod's
  labels match the selector built from the set.\<close>

definition labels_match :: "SelectorSpec \<Rightarrow> Pod \<Rightarrow> bool" where
  "labels_match selector pod =
     (LabelSelectors selector = []
      \<or> Selector_Matches (SelectorFromSet (LabelSelectors selector)) (Labels pod))"

section \<open>A cluster snapshot as the client, and collaborators for the examples\<close>

text \<open>
  Modelled from the spec: the client is the cluster's API, which is not code of this
  file. Section 6 describes it as the CandidateProvider: \<open>getByIdentity\<close> (an entity or
  not found), \<open>queryByRequirements\<close> (the entities that meet the label and field
  requirements), \<open>getNodeByName\<close> and \<open>queryNodesByLabelRequirement\<close>. Over a fixed
  pool of pods and nodes that is the client below; how a field requirement is matched is
  left to the parameter \<open>fieldMatches\<close>.
\<close>

definition pool_Client :: "(Set \<Rightarrow> Pod \<Rightarrow> bool) \<Rightarrow> Pod list \<Rightarrow> Node list \<Rightarrow> Client" where
  "pool_Client fieldMatches pool nodes =
     \<lparr>Get_Pod = (\<lambda>ns name.
        case find (\<lambda>p. Namespace p = ns \<and> Name p = name) pool of
          None \<Rightarrow> Inl NotFound | Some p \<Rightarrow> Inr p),
      List_Pods = (\<lambda>opts. Inr (filter (\<lambda>p.
        (case LabelSelector opts of None \<Rightarrow> True | Some sel \<Rightarrow> Selector_Matches sel (Labels p))
        \<and> (case FieldSelector opts of None \<Rightarrow> True | Some fs \<Rightarrow> fieldMatches fs p)) pool)),
      Get_Node = (\<lambda>name.
        case find (\<lambda>n. Node_Name n = name) nodes of
          None \<Rightarrow> Inl NotFound | Some n \<Rightarrow> Inr n),
      List_Nodes = (\<lambda>opts. Inr (filter (\<lambda>n.
        (case LabelSelector opts of None \<Rightarrow> True
         | Some sel \<Rightarrow> Selector_Matches sel (Node_Labels n))) nodes))\<rparr>"

text \<open>
  Modelled from the spec: \<open>labels.Parse\<close> is library code. Section 4.1: the expression
  is split on commas; a token with the leading negation marker \<open>!\<close> is a
  \<open>DoesNotExist\<close> requirement on the rest of the token, any other token an \<open>Exists\<close>
  requirement on the token as key; the empty expression has no requirement. A token
  \<open>key=value\<close> is read as the library reads it, as an \<open>Equals\<close> requirement, and an
  empty token is a parse error.
\<close>

fun split_commas :: "string \<Rightarrow> string \<Rightarrow> string list" where
  "split_commas [] token = [token]"
| "split_commas (c # cs) token =
     (if c = CHR '','' then token # split_commas cs [] else split_commas cs (token @ [c]))"

definition token_requirement :: "string \<Rightarrow> Requirement" where
  "token_requirement token =
     (if token \<noteq> [] \<and> hd token = CHR ''!''
      then \<lparr>key = tl token, operator = DoesNotExist, strValues = []\<rparr>
      else if CHR ''='' \<in> set token
      then \<lparr>key = takeWhile (\<lambda>c. c \<noteq> CHR ''='') token, operator = Equals,
            strValues = [tl (dropWhile (\<lambda>c. c \<noteq> CHR ''='') token)]\<rparr>
      else \<lparr>key = token, operator = Exists, strValues = []\<rparr>)"

definition Parse_tokens :: "string \<Rightarrow> error + Selector" where
  "Parse_tokens str =
     (if str = [] then Inr []
      else if [] \<in> set (split_commas str []) then Inl (ParseError str)
      else Inr (map token_requirement (split_commas str [])))"

text \<open>A rendering of a set for the examples: \<open>key=value\<close> entries joined by commas.\<close>

definition render_Set :: "Set \<Rightarrow> string" where
  "render_Set l = Join (map (\<lambda>(k, v). k @ ''='' @ v) l) '',''"

text \<open>\<open>regexp.MatchString\<close> for a pattern without metacharacters: the string holds the
  pattern as a substring.\<close>

fun contains :: "string \<Rightarrow> string \<Rightarrow> bool" where
  "contains pattern [] = (pattern = [])"
| "contains pattern (c # cs) = (prefix pattern (c # cs) \<or> contains pattern cs)"

definition literal_MatchString :: "string \<Rightarrow> string \<Rightarrow> error + bool" where
  "literal_MatchString pattern s = Inr (contains pattern s)"

text \<open>The environment of the examples: no allow pattern, the deny pattern
  \<open>kube-system\<close>, no test hook.\<close>

definition example_Env :: Env where
  "example_Env =
     \<lparr>AllowedNamespaces = [], IgnoredNamespaces = ''kube-system'',
      regexp_MatchString = literal_MatchString, labels_Parse = Parse_tokens,
      Label_String = render_Set,
      MockSelectAndFilterPods = None, MockSelectedAndFilterPodsError = None\<rparr>"

definition mk_Pod :: "string \<Rightarrow> string \<Rightarrow> Set \<Rightarrow> Set \<Rightarrow> string \<Rightarrow> string \<Rightarrow> Pod" where
  "mk_Pod ns name labels annotations node phase =
     \<lparr>Namespace = ns, Name = name, Labels = labels, Annotations = annotations,
      Spec_NodeName = node, Status_Phase = phase\<rparr>"

definition web0 :: Pod where
  "web0 = mk_Pod ''default'' ''web-0'' [(''app'', ''web'')] [(''team'', ''a'')] ''node-a'' ''Running''"

definition db0 :: Pod where
  "db0 = mk_Pod ''default'' ''db-0'' [(''app'', ''db'')] [(''team'', ''b'')] ''node-b'' ''Pending''"

definition dns0 :: Pod where
  "dns0 = mk_Pod ''kube-system'' ''dns-0'' [(''app'', ''dns'')] [] ''node-a'' ''Running''"

definition no_selector :: SelectorSpec where
  "no_selector =
     \<lparr>Namespaces = [], Nodes = [], Pods = [], NodeSelectors = [], FieldSelectors = [],
      LabelSelectors = [], AnnotationSelectors = [], PodPhaseSelectors = []\<rparr>"

text \<open>A pool of seven pods \<open>p1\<close> to \<open>p7\<close>.\<close>

definition pool7 :: "Pod list" where
  "pool7 = map (\<lambda>name. mk_Pod ''default'' name [] [] ''node-a'' ''Running'')
             [''p1'', ''p2'', ''p3'', ''p4'', ''p5'', ''p6'', ''p7'']"

section \<open>Proofs\<close>

declare RandomFixedIndexes_loop.simps [simp del] RandomFixedIndexes_range.simps [simp del]

subsection \<open>The node filter\<close>

lemma filterPodByNode_nodes_eq:
  "filterPodByNode_nodes pod nodes acc =
     acc @ replicate (length (filter (\<lambda>n. Node_Name n = Spec_NodeName pod) nodes)) pod"
proof (induction nodes arbitrary: acc)
  case Nil
  show ?case by simp
next
  case (Cons node nodes)
  show ?case
    by (simp add: Cons.IH replicate_app_Cons_same eq_commute [of "Node_Name node"])
qed

lemma filterPodByNode_pods_eq:
  "filterPodByNode_pods pods nodes acc =
     acc @ concat (map (\<lambda>pod.
       replicate (length (filter (\<lambda>n. Node_Name n = Spec_NodeName pod) nodes)) pod) pods)"
  by (induction pods arbitrary: acc) (simp_all add: filterPodByNode_nodes_eq)

lemma filterPodByNode_eq:
  "filterPodByNode pods nodes =
     concat (map (\<lambda>pod.
       replicate (length (filter (\<lambda>n. Node_Name n = Spec_NodeName pod) nodes)) pod) pods)"
  by (cases nodes) (simp_all add: filterPodByNode_def filterPodByNode_pods_eq)

lemma count_list_replicate:
  "count_list (replicate k x) y = (if x = y then k else 0)"
  by (induction k) auto

lemma count_list_concat_replicate:
  "count_list (concat (map (\<lambda>x. replicate (f x) x) xs)) y = count_list xs y * f y"
  by (induction xs) (simp_all add: count_list_replicate)

text \<open>
  C10. The node filter emits a pod once for every entry of the node list whose name is
  the pod's node name: a pod that stands \<open>c\<close> times in the input and whose node name
  is carried by \<open>k\<close> entries of the node list stands \<open>c * k\<close> times in the output
  (exactly \<open>k\<close> times for a pod listed once). With a node listed twice, the output
  of a one-pod input has two elements, so it is not a subsequence of the input.
\<close>

theorem filterPodByNode_emits_per_matching_node:
  "count_list (filterPodByNode pods nodes) pod =
     count_list pods pod * length (filter (\<lambda>n. Node_Name n = Spec_NodeName pod) nodes)
   \<and> \<not> subseq
        (filterPodByNode
           [\<lparr>Namespace = ''default'', Name = ''web-0'', Labels = [], Annotations = [],
             Spec_NodeName = ''node-a'', Status_Phase = ''Running''\<rparr>]
           [\<lparr>Node_Name = ''node-a'', Node_Labels = []\<rparr>,
            \<lparr>Node_Name = ''node-a'', Node_Labels = []\<rparr>])
        [\<lparr>Namespace = ''default'', Name = ''web-0'', Labels = [], Annotations = [],
          Spec_NodeName = ''node-a'', Status_Phase = ''Running''\<rparr>]"
proof
  show "count_list (filterPodByNode pods nodes) pod =
     count_list pods pod * length (filter (\<lambda>n. Node_Name n = Spec_NodeName pod) nodes)"
    unfolding filterPodByNode_eq by (rule count_list_concat_replicate)
next
  show "\<not> subseq
        (filterPodByNode
           [\<lparr>Namespace = ''default'', Name = ''web-0'', Labels = [], Annotations = [],
             Spec_NodeName = ''node-a'', Status_Phase = ''Running''\<rparr>]
           [\<lparr>Node_Name = ''node-a'', Node_Labels = []\<rparr>,
            \<lparr>Node_Name = ''node-a'', Node_Labels = []\<rparr>])
        [\<lparr>Namespace = ''default'', Name = ''web-0'', Labels = [], Annotations = [],
          Spec_NodeName = ''node-a'', Status_Phase = ''Running''\<rparr>]"
    by (simp add: filterPodByNode_def)
qed

subsection \<open>The fixed-index random sampler\<close>







lemma RandomFixedIndexes_loop_done:
  "\<not> i < sint count \<Longrightarrow>
   RandomFixedIndexes_loop start end' count i m indexes rs = Some (Inr indexes, rs)"
  by (subst RandomFixedIndexes_loop.simps) simp

lemma RandomFixedIndexes_loop_step_seen:
  assumes "i < sint count" "0 < sint (end' - start)"
    "m (word_of_int (int r mod sint (end' - start)) + start) \<noteq> None"
  shows "RandomFixedIndexes_loop start end' count i m indexes (r # rs) =
         RandomFixedIndexes_loop start end' count i m indexes rs"
  using assms by (subst RandomFixedIndexes_loop.simps) (simp add: rand_Intn_def)

lemma RandomFixedIndexes_loop_step_new:
  assumes "i < sint count" "0 < sint (end' - start)"
    "m (word_of_int (int r mod sint (end' - start)) + start) = None"
  shows "RandomFixedIndexes_loop start end' count i m indexes (r # rs) =
         RandomFixedIndexes_loop start end' count (i + 1)
           (m(word_of_int (int r mod sint (end' - start)) + start \<mapsto>
              word_of_int (int r mod sint (end' - start)) + start))
           (indexes @ [word_of_int (int r mod sint (end' - start)) + start]) rs"
  using assms by (subst RandomFixedIndexes_loop.simps) (simp add: rand_Intn_def Let_def)

lemma RandomFixedIndexes_loop_empty_source:
  assumes "i < sint count" "0 < sint (end' - start)"
  shows "RandomFixedIndexes_loop start end' count i m indexes [] = None"
  using assms by (subst RandomFixedIndexes_loop.simps) (simp add: rand_Intn_def)

lemma RandomFixedIndexes_loop_panic:
  assumes "i < sint count" "\<not> 0 < sint (end' - start)"
  shows "RandomFixedIndexes_loop start end' count i m indexes rs =
         Some (Inl (Panic ''invalid argument to Intn''), rs)"
  using assms by (subst RandomFixedIndexes_loop.simps) (simp add: rand_Intn_def)

lemma card_new_draw:
  assumes "x \<notin> S" "finite D"
  shows "card (insert x D - S) = Suc (card (D - insert x S))"
proof -
  have "insert x D - S = insert x (D - insert x S)" using assms(1) by auto
  moreover have "x \<notin> D - insert x S" by simp
  ultimately show ?thesis using assms(2) by simp
qed

lemma RandomFixedIndexes_loop_returns:
  assumes "dom m = set indexes" "distinct indexes" "int (length indexes) = i"
    and "nat (sint count - i) \<le> card (set (draws start end' rs) - set indexes)"
    and "0 < sint (end' - start) \<or> sint count \<le> i"
  shows "\<exists>xs rs'. RandomFixedIndexes_loop start end' count i m indexes rs
              = Some (Inr (indexes @ xs), rs')
           \<and> distinct (indexes @ xs) \<and> int (length (indexes @ xs)) = max i (sint count)
           \<and> set xs \<subseteq> set (draws start end' rs)"
  using assms
proof (induction rs arbitrary: i m indexes)
  case Nil
  then have "\<not> i < sint count" by (simp add: draws_def)
  then show ?case using Nil.prems by (simp add: RandomFixedIndexes_loop_done)
next
  case (Cons r rs)
  show ?case
  proof (cases "i < sint count")
    case False
    then show ?thesis using Cons.prems by (simp add: RandomFixedIndexes_loop_done)
  next
    case True
    with Cons.prems(5) have pos: "0 < sint (end' - start)" by simp
    define index where "index = word_of_int (int r mod sint (end' - start)) + start"
    have dr: "set (draws start end' (r # rs)) = insert index (set (draws start end' rs))"
      by (simp add: draws_def index_def)
    show ?thesis
    proof (cases "index \<in> set indexes")
      case seen: True
      then have "m index \<noteq> None" using Cons.prems(1) by auto
      then have eq: "RandomFixedIndexes_loop start end' count i m indexes (r # rs) =
          RandomFixedIndexes_loop start end' count i m indexes rs"
        unfolding index_def using True pos by (simp add: RandomFixedIndexes_loop_step_seen)
      have "set (draws start end' (r # rs)) - set indexes
            = set (draws start end' rs) - set indexes"
        using seen dr by auto
      then have "nat (sint count - i) \<le> card (set (draws start end' rs) - set indexes)"
        using Cons.prems(4) by simp
      from Cons.IH [OF Cons.prems(1,2,3) this Cons.prems(5)]
      show ?thesis unfolding eq dr by auto
    next
      case new: False
      then have none: "m index = None" using Cons.prems(1) by auto
      have eq: "RandomFixedIndexes_loop start end' count i m indexes (r # rs) =
          RandomFixedIndexes_loop start end' count (i + 1) (m(index \<mapsto> index))
            (indexes @ [index]) rs"
        unfolding index_def using True pos none [unfolded index_def]
        by (simp add: RandomFixedIndexes_loop_step_new)
      have c: "card (set (draws start end' (r # rs)) - set indexes)
               = Suc (card (set (draws start end' rs) - set (indexes @ [index])))"
        unfolding dr using card_new_draw [OF new, of "set (draws start end' rs)"] by simp
      have p1: "dom (m(index \<mapsto> index)) = set (indexes @ [index])"
        using Cons.prems(1) by auto
      have p2: "distinct (indexes @ [index])" using Cons.prems(2) new by simp
      have p3: "int (length (indexes @ [index])) = i + 1" using Cons.prems(3) by simp
      have p4: "nat (sint count - (i + 1))
                \<le> card (set (draws start end' rs) - set (indexes @ [index]))"
        using Cons.prems(4) c True by linarith
      have p5: "0 < sint (end' - start) \<or> sint count \<le> i + 1" using pos by simp
      from Cons.IH [OF p1 p2 p3 p4 p5] obtain xs rs' where
        r: "RandomFixedIndexes_loop start end' count (i + 1) (m(index \<mapsto> index))
              (indexes @ [index]) rs = Some (Inr ((indexes @ [index]) @ xs), rs')"
        and d: "distinct ((indexes @ [index]) @ xs)"
        and l: "int (length ((indexes @ [index]) @ xs)) = max (i + 1) (sint count)"
        and s: "set xs \<subseteq> set (draws start end' rs)"
        by blast
      have "RandomFixedIndexes_loop start end' count i m indexes (r # rs)
              = Some (Inr (indexes @ (index # xs)), rs')"
        using eq r by simp
      moreover have "distinct (indexes @ (index # xs))" using d by simp
      moreover have "int (length (indexes @ (index # xs))) = max i (sint count)"
        using l True by simp
      moreover have "set (index # xs) \<subseteq> set (draws start end' (r # rs))"
        using s dr by auto
      ultimately show ?thesis by blast
    qed
  qed
qed

lemma RandomFixedIndexes_loop_starves:
  assumes "dom m = set indexes"
    and "card (set (draws start end' rs) - set indexes) < nat (sint count - i)"
    and "0 < sint (end' - start)"
  shows "RandomFixedIndexes_loop start end' count i m indexes rs = None"
  using assms
proof (induction rs arbitrary: i m indexes)
  case Nil
  then have "i < sint count" by simp
  then show ?case using Nil.prems(3) by (rule RandomFixedIndexes_loop_empty_source)
next
  case (Cons r rs)
  from Cons.prems(2) have lt: "i < sint count" by simp
  note pos = Cons.prems(3)
  define index where "index = word_of_int (int r mod sint (end' - start)) + start"
  have dr: "set (draws start end' (r # rs)) = insert index (set (draws start end' rs))"
    by (simp add: draws_def index_def)
  show ?case
  proof (cases "index \<in> set indexes")
    case seen: True
    then have "m index \<noteq> None" using Cons.prems(1) by auto
    then have eq: "RandomFixedIndexes_loop start end' count i m indexes (r # rs) =
        RandomFixedIndexes_loop start end' count i m indexes rs"
      unfolding index_def using lt pos by (simp add: RandomFixedIndexes_loop_step_seen)
    have "set (draws start end' (r # rs)) - set indexes
          = set (draws start end' rs) - set indexes"
      using seen dr by auto
    then have "card (set (draws start end' rs) - set indexes) < nat (sint count - i)"
      using Cons.prems(2) by simp
    from Cons.IH [OF Cons.prems(1) this pos] show ?thesis unfolding eq .
  next
    case new: False
    then have none: "m index = None" using Cons.prems(1) by auto
    have eq: "RandomFixedIndexes_loop start end' count i m indexes (r # rs) =
        RandomFixedIndexes_loop start end' count (i + 1) (m(index \<mapsto> index))
          (indexes @ [index]) rs"
      unfolding index_def using lt pos none [unfolded index_def]
      by (simp add: RandomFixedIndexes_loop_step_new)
    have c: "card (set (draws start end' (r # rs)) - set indexes)
             = Suc (card (set (draws start end' rs) - set (indexes @ [index])))"
      unfolding dr using card_new_draw [OF new, of "set (draws start end' rs)"] by simp
    have p1: "dom (m(index \<mapsto> index)) = set (indexes @ [index])"
      using Cons.prems(1) by auto
    have p2: "card (set (draws start end' rs) - set (indexes @ [index]))
              < nat (sint count - (i + 1))"
      using Cons.prems(2) c lt by linarith
    from Cons.IH [OF p1 p2 pos] show ?thesis unfolding eq .
  qed
qed


lemma sint_small: "unat w < 2 ^ 63 \<Longrightarrow> sint w = int (unat w)" for w :: uint
proof -
  assume a: "unat w < 2 ^ 63"
  have "uint w = int (unat w)" by simp
  moreover have "int (unat w) < 2 ^ 63" using a by (metis of_nat_less_iff of_nat_numeral of_nat_power)
  moreover have "- (2 ^ 63) \<le> uint w"
    by (rule order_trans [of _ 0]) simp_all
  ultimately have "signed_take_bit 63 (uint w) = uint w"
    by (intro signed_take_bit_int_eq_self) simp_all
  then show ?thesis by (simp add: sint_uint)
qed

lemma sint_pos_uint: "0 < sint w \<Longrightarrow> sint w = uint w" for w :: uint
proof -
  assume a: "0 < sint w"
  have "sint w < 2 ^ 63" using sint_lt [of w] by simp
  then have "take_bit 64 (sint w) = sint w" using a by (simp add: take_bit_int_eq_self)
  then show ?thesis using uint_sint [of w] by simp
qed

lemma draw_in_range:
  fixes start end' :: uint
  assumes "start \<le> end'" "0 < sint (end' - start)"
  shows "start \<le> word_of_int (int r mod sint (end' - start)) + start
       \<and> word_of_int (int r mod sint (end' - start)) + start < end'"
proof -
  define n where "n = end' - start"
  define v where "v = int r mod sint n"
  have sn: "sint n = uint n" using assms(2) unfolding n_def by (rule sint_pos_uint)
  have v: "0 \<le> v" "v < uint n" using assms(2) sn unfolding v_def n_def by simp_all
  have "v < 2 ^ 64" using v(2) uint_lt2p [of n] by simp
  then have "uint (word_of_int v :: uint) = v" using v(1) by (simp add: uint_word_of_int)
  then have lt: "(word_of_int v :: uint) < n" using v(2) by (simp add: word_less_def)
  have "start \<le> word_of_int v + start \<and> word_of_int v + start < end'"
    using lt assms(1) unfolding n_def by unat_arith
  then show ?thesis unfolding v_def n_def .
qed

lemma draws_in_range:
  assumes "start \<le> end'" "0 < sint (end' - start)" "x \<in> set (draws start end' rs)"
  shows "start \<le> x \<and> x < end'"
  using assms draw_in_range [OF assms(1,2)] by (auto simp: draws_def)

lemma RandomFixedIndexes_sample:
  assumes se: "start \<le> end'" and N: "unat (end' - start) < 2 ^ 63"
    and KN: "count \<le> end' - start"
  shows "(unat count \<le> length (remdups (draws start end' rs)) \<longrightarrow>
            (\<exists>xs rs'. RandomFixedIndexes start end' count rs = Some (Inr xs, rs')
               \<and> length xs = unat count \<and> distinct xs
               \<and> (\<forall>x\<in>set xs. start \<le> x \<and> x < end')))
       \<and> (length (remdups (draws start end' rs)) < unat count \<longrightarrow>
            RandomFixedIndexes start end' count rs = None)"
proof -
  have uK: "unat count \<le> unat (end' - start)" using KN by (simp add: word_le_nat_alt)
  then have sK: "sint count = int (unat count)" using N by (intro sint_small) simp
  have sN: "sint (end' - start) = int (unat (end' - start))" using N by (rule sint_small)
  have eq: "RandomFixedIndexes start end' count rs
            = RandomFixedIndexes_loop start end' count 0 Map.empty [] rs"
    using KN se by (simp add: RandomFixedIndexes_def word_le_nat_alt word_less_nat_alt)
  have cd: "card (set (draws start end' rs) - set [])
            = length (remdups (draws start end' rs))"
    by (simp add: length_remdups_card_conv)
  show ?thesis
  proof (intro conjI impI)
    assume en: "unat count \<le> length (remdups (draws start end' rs))"
    have a4: "nat (sint count - 0) \<le> card (set (draws start end' rs) - set [])"
      using en sK cd by simp
    have a5: "0 < sint (end' - start) \<or> sint count \<le> 0"
      using uK unfolding sN sK by arith
    from RandomFixedIndexes_loop_returns
           [of Map.empty "[]" 0 count start end' rs, OF _ _ _ a4 a5]
    obtain xs rs' where
      r: "RandomFixedIndexes_loop start end' count 0 Map.empty [] rs = Some (Inr xs, rs')"
      and d: "distinct xs" and l: "int (length xs) = max 0 (sint count)"
      and s: "set xs \<subseteq> set (draws start end' rs)" by auto
    have "int (length xs) = int (unat count)" using l unfolding sK by linarith
    then have len: "length xs = unat count" by (simp only: of_nat_eq_iff)
    have rng: "\<forall>x\<in>set xs. start \<le> x \<and> x < end'"
    proof
      fix x assume x: "x \<in> set xs"
      then have "0 < length xs" by (cases xs) auto
      then have "0 < sint (end' - start)" using len uK unfolding sN by linarith
      from draws_in_range [OF se this] x s show "start \<le> x \<and> x < end'" by auto
    qed
    from r d len rng eq
    show "\<exists>xs rs'. RandomFixedIndexes start end' count rs = Some (Inr xs, rs')
               \<and> length xs = unat count \<and> distinct xs
               \<and> (\<forall>x\<in>set xs. start \<le> x \<and> x < end')" by auto
  next
    assume st: "length (remdups (draws start end' rs)) < unat count"
    have a2: "card (set (draws start end' rs) - set []) < nat (sint count - 0)"
      using st sK cd by simp
    have a3: "0 < sint (end' - start)" using st uK unfolding sN by linarith
    from RandomFixedIndexes_loop_starves
           [of Map.empty "[]" start end' rs count 0, OF _ a2 a3] eq
    show "RandomFixedIndexes start end' count rs = None" by simp
  qed
qed

lemma RandomFixedIndexes_from_zero:
  assumes N: "unat N < 2 ^ 63" and KN: "K \<le> N"
  shows "(unat K \<le> length (remdups (draws 0 N rs)) \<longrightarrow>
            (\<exists>xs rs'. RandomFixedIndexes 0 N K rs = Some (Inr xs, rs')
               \<and> length xs = unat K \<and> distinct xs \<and> (\<forall>x\<in>set xs. x < N)))
       \<and> (length (remdups (draws 0 N rs)) < unat K \<longrightarrow>
            RandomFixedIndexes 0 N K rs = None)"
  using RandomFixedIndexes_sample [of 0 N K rs] N KN by simp









subsection \<open>The requirement filters\<close>

lemma split_requirements_ok:
  "\<forall>r\<in>set reqs. operator r = Exists \<or> operator r = DoesNotExist \<Longrightarrow>
   split_requirements reqs reqIncl reqExcl =
     Inr (reqIncl @ filter (\<lambda>r. operator r = Exists) reqs,
          reqExcl @ filter (\<lambda>r. operator r = DoesNotExist) reqs)"
  by (induction reqs arbitrary: reqIncl reqExcl) auto

lemma split_requirements_unsupported:
  "r \<in> set reqs \<Longrightarrow> operator r \<noteq> Exists \<Longrightarrow> operator r \<noteq> DoesNotExist \<Longrightarrow>
   \<exists>op. op \<noteq> Exists \<and> op \<noteq> DoesNotExist \<and>
        split_requirements reqs reqIncl reqExcl = Inl (UnsupportedOperator op)"
  by (induction reqs arbitrary: reqIncl reqExcl) auto

lemma include_loop_eq:
  "include_loop reqs selector included =
     (included \<or> list_ex (\<lambda>r. Requirement_Matches r selector) reqs)"
  by (induction reqs) auto

lemma exclude_loop_eq:
  "exclude_loop reqs selector included =
     (included \<and> list_all (\<lambda>r. Requirement_Matches r selector) reqs)"
  by (induction reqs) auto

lemma pod_included_keeps:
  "pod_included (filter (\<lambda>r. operator r = Exists) expr)
                (filter (\<lambda>r. operator r = DoesNotExist) expr) keySet
   = requirement_keeps expr keySet"
  unfolding pod_included_def requirement_keeps_def include_loop_eq exclude_loop_eq
  by (auto simp: list_all_iff list_ex_iff Requirement_Matches_def filter_empty_conv)

lemma filterByNamespaceSelector_keeps:
  assumes "\<forall>r\<in>set expr. operator r = Exists \<or> operator r = DoesNotExist"
  shows "filterByNamespaceSelector pods expr =
           Inr (filter (\<lambda>pod. requirement_keeps expr [(Namespace pod, [])]) pods)"
proof (cases "expr = []")
  case True
  then show ?thesis by (simp add: filterByNamespaceSelector_def Empty_def requirement_keeps_def)
next
  case False
  then show ?thesis
    using split_requirements_ok [OF assms, of "[]" "[]"]
    by (simp add: filterByNamespaceSelector_def Empty_def pod_included_keeps)
qed

lemma filterByPhaseSelector_keeps:
  assumes "\<forall>r\<in>set expr. operator r = Exists \<or> operator r = DoesNotExist"
  shows "filterByPhaseSelector pods expr =
           Inr (filter (\<lambda>pod. requirement_keeps expr [(Status_Phase pod, [])]) pods)"
proof (cases "expr = []")
  case True
  then show ?thesis by (simp add: filterByPhaseSelector_def Empty_def requirement_keeps_def)
next
  case False
  then show ?thesis
    using split_requirements_ok [OF assms, of "[]" "[]"]
    by (simp add: filterByPhaseSelector_def Empty_def pod_included_keeps)
qed

text \<open>
  C6. On an expression of \<open>Exists\<close> and \<open>DoesNotExist\<close> requirements, the namespace
  filter and the phase filter keep exactly the pods for which the expression has no
  \<open>Exists\<close> requirement or one whose key is in the pod's single-key set (the namespace,
  or the phase, mapped to the empty string), and no \<open>DoesNotExist\<close> requirement whose key
  is in that set; the order of the pods is kept. The empty expression keeps every pod.
\<close>

theorem requirement_filters_keep:
  "\<forall>r\<in>set expr. operator r = Exists \<or> operator r = DoesNotExist \<Longrightarrow>
   filterByNamespaceSelector pods expr =
     Inr (filter (\<lambda>pod. requirement_keeps expr [(Namespace pod, [])]) pods)
   \<and> filterByPhaseSelector pods expr =
     Inr (filter (\<lambda>pod. requirement_keeps expr [(Status_Phase pod, [])]) pods)
   \<and> filterByNamespaceSelector pods [] = Inr pods
   \<and> filterByPhaseSelector pods [] = Inr pods"
proof (intro conjI)
  assume a: "\<forall>r\<in>set expr. operator r = Exists \<or> operator r = DoesNotExist"
  show "filterByNamespaceSelector pods expr =
     Inr (filter (\<lambda>pod. requirement_keeps expr [(Namespace pod, [])]) pods)"
    using a by (rule filterByNamespaceSelector_keeps)
  show "filterByPhaseSelector pods expr =
     Inr (filter (\<lambda>pod. requirement_keeps expr [(Status_Phase pod, [])]) pods)"
    using a by (rule filterByPhaseSelector_keeps)
  show "filterByNamespaceSelector pods [] = Inr pods"
    by (simp add: filterByNamespaceSelector_def Empty_def)
  show "filterByPhaseSelector pods [] = Inr pods"
    by (simp add: filterByPhaseSelector_def Empty_def)
qed

theorem requirement_filters_keep_witness:
  "list_all (\<lambda>r. operator r = Exists \<or> operator r = DoesNotExist)
     [\<lparr>key = ''kube-system'', operator = DoesNotExist, strValues = []\<rparr>]
   \<and> filterByNamespaceSelector [web0, dns0, db0]
        [\<lparr>key = ''kube-system'', operator = DoesNotExist, strValues = []\<rparr>] = Inr [web0, db0]
   \<and> filterByPhaseSelector [web0, dns0, db0]
        [\<lparr>key = ''Pending'', operator = Exists, strValues = []\<rparr>,
         \<lparr>key = ''Failed'', operator = Exists, strValues = []\<rparr>] = Inr [db0]"
proof -
  let ?ns = "[\<lparr>key = ''kube-system'', operator = DoesNotExist, strValues = []\<rparr>]"
  let ?ph = "[\<lparr>key = ''Pending'', operator = Exists, strValues = []\<rparr>,
              \<lparr>key = ''Failed'', operator = Exists, strValues = []\<rparr>]"
  have h1: "\<forall>r\<in>set ?ns. operator r = Exists \<or> operator r = DoesNotExist" by simp
  have h2: "\<forall>r\<in>set ?ph. operator r = Exists \<or> operator r = DoesNotExist" by simp
  have k1: "filter (\<lambda>pod. requirement_keeps ?ns [(Namespace pod, [])]) [web0, dns0, db0]
            = [web0, db0]"
    by (simp add: requirement_keeps_def Has_def web0_def dns0_def db0_def mk_Pod_def)
  have k2: "filter (\<lambda>pod. requirement_keeps ?ph [(Status_Phase pod, [])]) [web0, dns0, db0]
            = [db0]"
    by (simp add: requirement_keeps_def Has_def web0_def dns0_def db0_def mk_Pod_def)
  have t1: "filterByNamespaceSelector [web0, dns0, db0] ?ns = Inr [web0, db0]"
    using requirement_filters_keep [OF h1, of "[web0, dns0, db0]"] unfolding k1 by (rule conjunct1)
  have t2: "filterByPhaseSelector [web0, dns0, db0] ?ph = Inr [db0]"
    using requirement_filters_keep [OF h2, of "[web0, dns0, db0]"] unfolding k2
    by (elim conjE)
  show ?thesis using t1 t2 by simp
qed

text \<open>
  C7, as the code has it. In the namespace filter and in the phase filter, an expression
  that holds a requirement whose operator is neither \<open>Exists\<close> nor \<open>DoesNotExist\<close> makes
  the call fail with the unsupported-operator error (for the first such operator), and no
  pod is evaluated. The annotation filter has no such check and no error result: it
  evaluates every requirement with the selector's own \<open>Matches\<close>.
\<close>

theorem unsupported_operator_fails:
  "r \<in> set expr \<Longrightarrow> operator r \<noteq> Exists \<Longrightarrow> operator r \<noteq> DoesNotExist \<Longrightarrow>
   (\<exists>op. op \<noteq> Exists \<and> op \<noteq> DoesNotExist
      \<and> filterByNamespaceSelector pods expr = Inl (UnsupportedOperator op)
      \<and> filterByPhaseSelector pods expr = Inl (UnsupportedOperator op))
   \<and> filterByAnnotations pods expr =
       filter (\<lambda>pod. Selector_Matches expr (Annotations pod)) pods"
proof -
  assume a: "r \<in> set expr" "operator r \<noteq> Exists" "operator r \<noteq> DoesNotExist"
  then have ne: "expr \<noteq> []" by auto
  from split_requirements_unsupported [OF a, of "[]" "[]"] obtain op where
    op: "op \<noteq> Exists" "op \<noteq> DoesNotExist"
        "split_requirements expr [] [] = Inl (UnsupportedOperator op)" by blast
  have "filterByNamespaceSelector pods expr = Inl (UnsupportedOperator op)"
    using ne op(3) by (simp add: filterByNamespaceSelector_def Empty_def)
  moreover have "filterByPhaseSelector pods expr = Inl (UnsupportedOperator op)"
    using ne op(3) by (simp add: filterByPhaseSelector_def Empty_def)
  moreover have "filterByAnnotations pods expr =
       filter (\<lambda>pod. Selector_Matches expr (Annotations pod)) pods"
    using ne by (simp add: filterByAnnotations_def Empty_def)
  ultimately show ?thesis using op(1,2) by blast
qed

theorem unsupported_operator_fails_witness:
  "\<lparr>key = ''team'', operator = Equals, strValues = [''a'']\<rparr>
     \<in> set [\<lparr>key = ''team'', operator = Equals, strValues = [''a'']\<rparr>]
   \<and> filterByNamespaceSelector [web0, db0]
        [\<lparr>key = ''team'', operator = Equals, strValues = [''a'']\<rparr>]
       = Inl (UnsupportedOperator Equals)
   \<and> filterByPhaseSelector [web0, db0]
        [\<lparr>key = ''team'', operator = Equals, strValues = [''a'']\<rparr>]
       = Inl (UnsupportedOperator Equals)"
proof -
  have e: "filterByNamespaceSelector [web0, db0]
        [\<lparr>key = ''team'', operator = Equals, strValues = [''a'']\<rparr>]
       = Inl (UnsupportedOperator Equals)"
    by (simp add: filterByNamespaceSelector_def Empty_def)
  show ?thesis
    using unsupported_operator_fails
      [of "\<lparr>key = ''team'', operator = Equals, strValues = [''a'']\<rparr>"
          "[\<lparr>key = ''team'', operator = Equals, strValues = [''a'']\<rparr>]" "[web0, db0]"] e
    by auto
qed

text \<open>
  The annotation filter evaluates a value-equality requirement instead of failing: of two
  pods annotated \<open>team=a\<close> and \<open>team=b\<close> it keeps the first, where the namespace filter
  fails on the same expression.
\<close>

theorem filterByAnnotations_evaluates_equality:
  "filterByAnnotations [web0, db0] [\<lparr>key = ''team'', operator = Equals, strValues = [''a'']\<rparr>]
     = [web0]
   \<and> filterByNamespaceSelector [web0, db0]
        [\<lparr>key = ''team'', operator = Equals, strValues = [''a'']\<rparr>]
       = Inl (UnsupportedOperator Equals)"
  by (simp add: filterByAnnotations_def filterByNamespaceSelector_def Empty_def
        Selector_Matches_def Requirement_Matches_def Has_def Get_def
        web0_def db0_def mk_Pod_def)

subsection \<open>Evaluating the examples\<close>

lemmas example_defs =
  example_Env_def pool_Client_def no_selector_def web0_def db0_def dns0_def mk_Pod_def
  Parse_tokens_def token_requirement_def render_Set_def literal_MatchString_def

lemmas pipeline_defs =
  SelectPods_def CheckPodMeetSelector_def parseSelector_def filterByNamespaces_def
  IsAllowedNamespaces_def filterByNamespaceSelector_def filterByPhaseSelector_def
  filterByAnnotations_def pod_included_def Empty_def SelectorFromSet_def
  Selector_Matches_def Requirement_Matches_def Has_def Get_def

subsection \<open>The explicit branch of the pipeline\<close>

lemma resolve_append:
  "resolve (as @ bs) pods =
     (case resolve as pods of Inl err \<Rightarrow> Inl err | Inr pods' \<Rightarrow> resolve bs pods')"
proof (induction as arbitrary: pods)
  case Nil
  show ?case by simp
next
  case (Cons a as)
  show ?case by (cases a) (simp_all add: Cons.IH)
qed

lemma SelectPods_names_resolve:
  "SelectPods_names c ns names pods = resolve (map (Get_Pod c ns) names) pods"
proof (induction names arbitrary: pods)
  case Nil
  show ?case by simp
next
  case (Cons name names)
  show ?case by (cases "Get_Pod c ns name") (simp_all add: Cons.IH)
qed

lemma SelectPods_explicit_resolve:
  "SelectPods_explicit c ps pods = resolve (explicit_lookups c ps) pods"
proof (induction ps arbitrary: pods)
  case Nil
  show ?case by (simp add: explicit_lookups_def)
next
  case (Cons p ps)
  obtain ns names where p: "p = (ns, names)" by (cases p)
  have "explicit_lookups c (p # ps) = map (Get_Pod c ns) names @ explicit_lookups c ps"
    by (simp add: explicit_lookups_def p)
  then show ?case
    by (simp add: p resolve_append SelectPods_names_resolve Cons.IH split: sum.splits)
qed

lemma resolve_no_fatal:
  "list_all (\<lambda>r. \<not> fatal r) rs \<Longrightarrow> resolve rs pods = Inr (pods @ found rs)"
proof (induction rs arbitrary: pods)
  case Nil
  show ?case by (simp add: found_def)
next
  case (Cons r rs)
  then show ?case by (cases r) (simp_all add: found_def fatal_def)
qed

lemma resolve_first_fatal:
  "list_all (\<lambda>r. \<not> fatal r) pre \<Longrightarrow> \<not> IsNotFound err \<Longrightarrow>
   resolve (pre @ Inl err # post) pods = Inl err"
  by (simp add: resolve_append resolve_no_fatal)

lemma resolve_error_origin:
  "resolve rs pods = Inl err \<Longrightarrow> Inl err \<in> set rs"
proof (induction rs arbitrary: pods)
  case Nil
  then show ?case by simp
next
  case (Cons r rs)
  then show ?case by (cases r) (auto split: if_splits)
qed

text \<open>
  C1. When \<open>selector.Pods\<close> is not empty, \<open>SelectPods\<close> returns the pods its lookups
  found, in the order of the lookups, skipping what was not found; the first lookup that
  fails with another error ends the call with that error. Nothing else of the selector
  and nothing of the environment (the namespace policy, the parser) enters the result: any
  selector with the same \<open>Pods\<close> map gives the same result in any environment.
\<close>

theorem SelectPods_explicit_pods_only:
  "Pods selector \<noteq> [] \<Longrightarrow>
   (list_all (\<lambda>r. \<not> fatal r) (explicit_lookups c (Pods selector)) \<longrightarrow>
      SelectPods env c selector = Inr (found (explicit_lookups c (Pods selector))))
   \<and> (\<forall>pre err post.
        explicit_lookups c (Pods selector) = pre @ Inl err # post
        \<and> list_all (\<lambda>r. \<not> fatal r) pre \<and> \<not> IsNotFound err \<longrightarrow>
        SelectPods env c selector = Inl err)
   \<and> (\<forall>env' selector'. Pods selector' = Pods selector \<longrightarrow>
        SelectPods env' c selector' = SelectPods env c selector)"
proof -
  assume ne: "Pods selector \<noteq> []"
  have eq: "\<And>env' selector'. Pods selector' = Pods selector \<Longrightarrow>
      SelectPods env' c selector' = resolve (explicit_lookups c (Pods selector)) []"
    using ne by (simp add: SelectPods_def SelectPods_explicit_resolve)
  show ?thesis
  proof (intro conjI allI impI)
    assume "list_all (\<lambda>r. \<not> fatal r) (explicit_lookups c (Pods selector))"
    then show "SelectPods env c selector = Inr (found (explicit_lookups c (Pods selector)))"
      using eq [of selector env] by (simp add: resolve_no_fatal)
  next
    fix pre err post
    assume "explicit_lookups c (Pods selector) = pre @ Inl err # post
        \<and> list_all (\<lambda>r. \<not> fatal r) pre \<and> \<not> IsNotFound err"
    then show "SelectPods env c selector = Inl err"
      using eq [of selector env] by (simp add: resolve_first_fatal)
  next
    fix env' :: Env and selector' :: SelectorSpec
    assume "Pods selector' = Pods selector"
    then show "SelectPods env' c selector' = SelectPods env c selector"
      using eq [of selector' env'] eq [of selector env] by simp
  qed
qed

theorem SelectPods_explicit_pods_only_witness:
  "Pods (no_selector\<lparr>Pods := [(''default'', [''web-0'', ''gone'']), (''kube-system'', [''dns-0''])],
          Namespaces := [''!default''], Nodes := [''node-z''], LabelSelectors := [(''app'', ''db'')],
          AnnotationSelectors := [(''team'', ''z'')], PodPhaseSelectors := [''Failed'']\<rparr>) \<noteq> []
   \<and> list_all (\<lambda>r. \<not> fatal r)
        (explicit_lookups (pool_Client (\<lambda>fs p. True) [web0, db0, dns0] [])
           [(''default'', [''web-0'', ''gone'']), (''kube-system'', [''dns-0''])])
   \<and> SelectPods example_Env (pool_Client (\<lambda>fs p. True) [web0, db0, dns0] [])
        (no_selector\<lparr>Pods := [(''default'', [''web-0'', ''gone'']), (''kube-system'', [''dns-0''])],
          Namespaces := [''!default''], Nodes := [''node-z''], LabelSelectors := [(''app'', ''db'')],
          AnnotationSelectors := [(''team'', ''z'')], PodPhaseSelectors := [''Failed'']\<rparr>)
       = Inr [web0, dns0]
   \<and> SelectPods example_Env
        ((pool_Client (\<lambda>fs p. True) [web0, db0, dns0] [])
           \<lparr>Get_Pod := \<lambda>ns name. if name = ''db-0'' then Inl (ClientError ''timeout'')
                                  else Get_Pod (pool_Client (\<lambda>fs p. True) [web0, db0, dns0] []) ns name\<rparr>)
        (no_selector\<lparr>Pods := [(''default'', [''web-0'', ''db-0'', ''gone''])]\<rparr>)
       = Inl (ClientError ''timeout'')"
proof -
  let ?c = "pool_Client (\<lambda>fs p. True) [web0, db0, dns0] []"
  let ?sel = "no_selector\<lparr>Pods := [(''default'', [''web-0'', ''gone'']), (''kube-system'', [''dns-0''])],
          Namespaces := [''!default''], Nodes := [''node-z''], LabelSelectors := [(''app'', ''db'')],
          AnnotationSelectors := [(''team'', ''z'')], PodPhaseSelectors := [''Failed'']\<rparr>"
  let ?c' = "?c\<lparr>Get_Pod := \<lambda>ns name. if name = ''db-0'' then Inl (ClientError ''timeout'')
                                  else Get_Pod ?c ns name\<rparr>"
  let ?sel' = "no_selector\<lparr>Pods := [(''default'', [''web-0'', ''db-0'', ''gone''])]\<rparr>"
  have p: "Pods ?sel = [(''default'', [''web-0'', ''gone'']), (''kube-system'', [''dns-0''])]"
    by (simp add: no_selector_def)
  have h1: "Pods ?sel \<noteq> []" by (simp add: no_selector_def)
  have l: "explicit_lookups ?c (Pods ?sel) = [Inr web0, Inl NotFound, Inr dns0]"
    by (simp add: explicit_lookups_def example_defs)
  have h2: "list_all (\<lambda>r. \<not> fatal r) (explicit_lookups ?c (Pods ?sel))"
    unfolding l by (simp add: fatal_def)
  have a: "SelectPods example_Env ?c ?sel = Inr [web0, dns0]"
    using SelectPods_explicit_pods_only [OF h1, of ?c example_Env, THEN conjunct1] h2
    unfolding l by (simp add: found_def)
  have p': "Pods ?sel' \<noteq> []" by (simp add: no_selector_def)
  have l': "explicit_lookups ?c' (Pods ?sel')
            = [Inr web0] @ Inl (ClientError ''timeout'') # [Inl NotFound]"
    by (simp add: explicit_lookups_def example_defs)
  have b: "SelectPods example_Env ?c' ?sel' = Inl (ClientError ''timeout'')"
    using SelectPods_explicit_pods_only
            [OF p', of ?c' example_Env, THEN conjunct2, THEN conjunct1, rule_format,
             of "[Inr web0]" "ClientError ''timeout''" "[Inl NotFound]"]
      l' by (simp add: fatal_def)
  from h1 h2 [unfolded p] a b show ?thesis by blast
qed

subsection \<open>Where the errors of the pipeline come from\<close>

lemma split_requirements_error:
  "split_requirements reqs reqIncl reqExcl = Inl err \<Longrightarrow> \<exists>op. err = UnsupportedOperator op"
  by (induction reqs arbitrary: reqIncl reqExcl) (auto split: if_splits)

lemma filterByNamespaceSelector_error:
  "filterByNamespaceSelector pods sel = Inl err \<Longrightarrow> \<exists>op. err = UnsupportedOperator op"
  by (auto simp: filterByNamespaceSelector_def split: if_splits sum.splits
           dest: split_requirements_error)

lemma filterByPhaseSelector_error:
  "filterByPhaseSelector pods sel = Inl err \<Longrightarrow> \<exists>op. err = UnsupportedOperator op"
  by (auto simp: filterByPhaseSelector_def split: if_splits sum.splits
           dest: split_requirements_error)

lemma parseSelector_eq: "parseSelector env str = labels_Parse env str"
  by (simp add: parseSelector_def split: sum.splits)

lemma requirement_stages_error:
  assumes "requirement_stages env selector pods = Inl err"
  shows "(\<exists>str. labels_Parse env str = Inl err) \<or> (\<exists>op. err = UnsupportedOperator op)"
  using assms unfolding requirement_stages_def parseSelector_eq
  by (auto split: sum.splits
           dest: filterByNamespaceSelector_error filterByPhaseSelector_error)

lemma SelectPods_bulk:
  assumes "Pods selector = []"
  shows "SelectPods env c selector =
     (case List_Pods c
               \<lparr>LabelSelector =
                  (if length (LabelSelectors selector) > 0
                   then Some (SelectorFromSet (LabelSelectors selector)) else None),
                FieldSelector =
                  (if length (FieldSelectors selector) > 0
                   then Some (FieldSelectors selector) else None)\<rparr> of
        Inl err \<Rightarrow> Inl err
      | Inr items \<Rightarrow>
         (if length (Nodes selector) > 0 \<or> length (NodeSelectors selector) > 0 then
            (if length (NodeSelectors selector) > 0 then
               (case List_Nodes c
                       \<lparr>LabelSelector = Some (SelectorFromSet (NodeSelectors selector)),
                        FieldSelector = None\<rparr> of
                  Inl err \<Rightarrow> Inl err
                | Inr nodeItems \<Rightarrow>
                    requirement_stages env selector (filterByNamespaces env
                      (filterPodByNode items
                         ((if length (Nodes selector) > 0
                           then SelectPods_nodes c (Nodes selector) [] else []) @ nodeItems))))
             else requirement_stages env selector (filterByNamespaces env
                    (filterPodByNode items (SelectPods_nodes c (Nodes selector) []))))
          else requirement_stages env selector (filterByNamespaces env items)))"
  using assms
  by (simp add: SelectPods_def requirement_stages_def Let_def split: sum.splits)

lemma SelectPods_error_origin:
  assumes "SelectPods env c selector = Inl err"
  shows "(\<exists>ns name. Get_Pod c ns name = Inl err) \<or> (\<exists>opts. List_Pods c opts = Inl err)
       \<or> (\<exists>opts. List_Nodes c opts = Inl err) \<or> (\<exists>str. labels_Parse env str = Inl err)
       \<or> (\<exists>op. err = UnsupportedOperator op)"
proof (cases "Pods selector = []")
  case False
  then have "resolve (explicit_lookups c (Pods selector)) [] = Inl err"
    using assms by (simp add: SelectPods_def SelectPods_explicit_resolve)
  then have "Inl err \<in> set (explicit_lookups c (Pods selector))"
    by (rule resolve_error_origin)
  then obtain ns name where "Get_Pod c ns name = Inl err"
    by (auto simp: explicit_lookups_def eq_commute [of "Inl err"])
  then have "\<exists>ns name. Get_Pod c ns name = Inl err" by blast
  then show ?thesis by blast
next
  case True
  from assms [unfolded SelectPods_bulk [OF True]] show ?thesis
    by (auto split: sum.splits if_splits dest!: requirement_stages_error)
qed

text \<open>
  C9. \<open>filterPodsByMode\<close> on the empty list fails with the empty-list error whatever
  the mode and the value are; \<open>SelectAndFilterPods\<close> (no test hook set) fails with its
  own no-pod error when the pipeline selects nothing. \<open>SelectPods\<close> itself creates
  neither: any error it returns was returned to it by the client or the parser, or is the
  unsupported-operator error, and it can return the empty list without an error.
\<close>

theorem empty_pool_error_only_from_sampling:
  "filterPodsByMode [] mode value rs = Some (Inl EmptyPodList, rs)
   \<and> (MockSelectAndFilterPods env = None \<and> MockSelectedAndFilterPodsError env = None
        \<and> SelectPods env c (GetSelector spec) = Inr [] \<longrightarrow>
      SelectAndFilterPods env c spec rs = Some (Inl NoPodSelected, rs))
   \<and> (SelectPods env c selector = Inl err \<longrightarrow>
        (\<exists>ns name. Get_Pod c ns name = Inl err) \<or> (\<exists>opts. List_Pods c opts = Inl err)
        \<or> (\<exists>opts. List_Nodes c opts = Inl err) \<or> (\<exists>str. labels_Parse env str = Inl err)
        \<or> (\<exists>op. err = UnsupportedOperator op))
   \<and> SelectPods example_Env (pool_Client (\<lambda>fs p. True) [web0, dns0] [])
        (no_selector\<lparr>LabelSelectors := [(''app'', ''db'')]\<rparr>) = Inr []"
proof (intro conjI impI)
  show "filterPodsByMode [] mode value rs = Some (Inl EmptyPodList, rs)"
    by (simp add: filterPodsByMode_def)
next
  assume "MockSelectAndFilterPods env = None \<and> MockSelectedAndFilterPodsError env = None
        \<and> SelectPods env c (GetSelector spec) = Inr []"
  then show "SelectAndFilterPods env c spec rs = Some (Inl NoPodSelected, rs)"
    by (simp add: SelectAndFilterPods_def)
next
  assume "SelectPods env c selector = Inl err"
  then show "(\<exists>ns name. Get_Pod c ns name = Inl err) \<or> (\<exists>opts. List_Pods c opts = Inl err)
        \<or> (\<exists>opts. List_Nodes c opts = Inl err) \<or> (\<exists>str. labels_Parse env str = Inl err)
        \<or> (\<exists>op. err = UnsupportedOperator op)"
    by (rule SelectPods_error_origin)
next
  show "SelectPods example_Env (pool_Client (\<lambda>fs p. True) [web0, dns0] [])
        (no_selector\<lparr>LabelSelectors := [(''app'', ''db'')]\<rparr>) = Inr []"
    by (simp add: SelectPods_def no_selector_def pool_Client_def example_Env_def
          SelectorFromSet_def Selector_Matches_def Requirement_Matches_def Has_def Get_def
          web0_def dns0_def mk_Pod_def filterByNamespaces_def parseSelector_def
          Parse_tokens_def render_Set_def filterByNamespaceSelector_def
          filterByPhaseSelector_def filterByAnnotations_def Empty_def)
qed

theorem empty_pool_error_only_from_sampling_witness:
  "MockSelectAndFilterPods example_Env = None
   \<and> MockSelectedAndFilterPodsError example_Env = None
   \<and> SelectPods example_Env (pool_Client (\<lambda>fs p. True) [web0, dns0] [])
        (no_selector\<lparr>LabelSelectors := [(''app'', ''db'')]\<rparr>) = Inr []
   \<and> SelectAndFilterPods example_Env (pool_Client (\<lambda>fs p. True) [web0, dns0] [])
        \<lparr>GetSelector = no_selector\<lparr>LabelSelectors := [(''app'', ''db'')]\<rparr>,
         GetMode = AllPodMode, GetValue = []\<rparr> [4, 2] = Some (Inl NoPodSelected, [4, 2])
   \<and> SelectPods example_Env (pool_Client (\<lambda>fs p. True) [web0, dns0] [])
        (no_selector\<lparr>Namespaces := [[], ''x'']\<rparr>) = Inl (ParseError '',x'')
   \<and> labels_Parse example_Env '',x'' = Inl (ParseError '',x'')"
proof -
  let ?c = "pool_Client (\<lambda>fs p. True) [web0, dns0] []"
  let ?sel = "no_selector\<lparr>LabelSelectors := [(''app'', ''db'')]\<rparr>"
  have m: "MockSelectAndFilterPods example_Env = None"
          "MockSelectedAndFilterPodsError example_Env = None"
    by (simp_all add: example_Env_def)
  have s: "SelectPods example_Env ?c ?sel = Inr []"
    by (simp add: pipeline_defs example_defs)
  have a: "SelectAndFilterPods example_Env ?c
             \<lparr>GetSelector = ?sel, GetMode = AllPodMode, GetValue = []\<rparr> [4, 2]
           = Some (Inl NoPodSelected, [4, 2])"
    using empty_pool_error_only_from_sampling
            [of AllPodMode "[]" "[4, 2]" example_Env ?c
                "\<lparr>GetSelector = ?sel, GetMode = AllPodMode, GetValue = []\<rparr>"]
          m s by simp
  have e: "SelectPods example_Env ?c (no_selector\<lparr>Namespaces := [[], ''x'']\<rparr>)
           = Inl (ParseError '',x'')"
    by (simp add: pipeline_defs example_defs)
  have f: "labels_Parse example_Env '',x'' = Inl (ParseError '',x'')"
    by (simp add: example_defs)
  from m s a e f show ?thesis by blast
qed

subsection \<open>The membership tester against the pipeline\<close>

lemma filterByNamespaceSelector_stage:
  "(\<exists>err. \<forall>pods. filterByNamespaceSelector pods sel = Inl err)
   \<or> (\<exists>P. \<forall>pods. filterByNamespaceSelector pods sel = Inr (filter P pods))"
proof (cases "Empty sel")
  case True
  then have "\<forall>pods. filterByNamespaceSelector pods sel = Inr (filter (\<lambda>p. True) pods)"
    by (simp add: filterByNamespaceSelector_def)
  then show ?thesis by blast
next
  case False
  show ?thesis
  proof (cases "split_requirements sel [] []")
    case (Inl err)
    with False have "\<forall>pods. filterByNamespaceSelector pods sel = Inl err"
      by (simp add: filterByNamespaceSelector_def)
    then show ?thesis by blast
  next
    case (Inr groups)
    with False have "\<forall>pods. filterByNamespaceSelector pods sel =
        Inr (filter (\<lambda>pod. pod_included (fst groups) (snd groups) [(Namespace pod, [])]) pods)"
      by (simp add: filterByNamespaceSelector_def split: prod.splits)
    then show ?thesis by blast
  qed
qed

lemma filterByPhaseSelector_stage:
  "(\<exists>err. \<forall>pods. filterByPhaseSelector pods sel = Inl err)
   \<or> (\<exists>P. \<forall>pods. filterByPhaseSelector pods sel = Inr (filter P pods))"
proof (cases "Empty sel")
  case True
  then have "\<forall>pods. filterByPhaseSelector pods sel = Inr (filter (\<lambda>p. True) pods)"
    by (simp add: filterByPhaseSelector_def)
  then show ?thesis by blast
next
  case False
  show ?thesis
  proof (cases "split_requirements sel [] []")
    case (Inl err)
    with False have "\<forall>pods. filterByPhaseSelector pods sel = Inl err"
      by (simp add: filterByPhaseSelector_def)
    then show ?thesis by blast
  next
    case (Inr groups)
    with False have "\<forall>pods. filterByPhaseSelector pods sel =
        Inr (filter (\<lambda>pod. pod_included (fst groups) (snd groups) [(Status_Phase pod, [])]) pods)"
      by (simp add: filterByPhaseSelector_def split: prod.splits)
    then show ?thesis by blast
  qed
qed

lemma filterByAnnotations_filter:
  "\<exists>P. \<forall>pods. filterByAnnotations pods sel = filter P pods"
proof (cases "Empty sel")
  case True
  then have "\<forall>pods. filterByAnnotations pods sel = filter (\<lambda>p. True) pods"
    by (simp add: filterByAnnotations_def)
  then show ?thesis by blast
next
  case False
  then have "\<forall>pods. filterByAnnotations pods sel =
      filter (\<lambda>pod. Selector_Matches sel (Annotations pod)) pods"
    by (simp add: filterByAnnotations_def)
  then show ?thesis by blast
qed

lemma requirement_stages_stage:
  "(\<exists>err. \<forall>pods. requirement_stages env selector pods = Inl err)
   \<or> (\<exists>P. \<forall>pods. requirement_stages env selector pods = Inr (filter P pods))"
proof (cases "parseSelector env (Join (Namespaces selector) '','')")
  case (Inl err)
  then have "\<forall>pods. requirement_stages env selector pods = Inl err"
    by (simp add: requirement_stages_def)
  then show ?thesis by blast
next
  case ns: (Inr namespaceSelector)
  from filterByNamespaceSelector_stage [of namespaceSelector] show ?thesis
  proof
    assume "\<exists>err. \<forall>pods. filterByNamespaceSelector pods namespaceSelector = Inl err"
    then obtain err where "\<forall>pods. filterByNamespaceSelector pods namespaceSelector = Inl err" ..
    then have "\<forall>pods. requirement_stages env selector pods = Inl err"
      by (simp add: requirement_stages_def ns)
    then show ?thesis by blast
  next
    assume "\<exists>P. \<forall>pods. filterByNamespaceSelector pods namespaceSelector = Inr (filter P pods)"
    then obtain P1 where
      p1: "\<forall>pods. filterByNamespaceSelector pods namespaceSelector = Inr (filter P1 pods)" ..
    show ?thesis
    proof (cases "parseSelector env (Label_String env (AnnotationSelectors selector))")
      case (Inl err)
      then have "\<forall>pods. requirement_stages env selector pods = Inl err"
        by (simp add: requirement_stages_def ns p1)
      then show ?thesis by blast
    next
      case an: (Inr annotationsSelector)
      from filterByAnnotations_filter [of annotationsSelector] obtain P2 where
        p2: "\<forall>pods. filterByAnnotations pods annotationsSelector = filter P2 pods" ..
      show ?thesis
      proof (cases "parseSelector env (Join (PodPhaseSelectors selector) '','')")
        case (Inl err)
        then have "\<forall>pods. requirement_stages env selector pods = Inl err"
          by (simp add: requirement_stages_def ns p1 an)
        then show ?thesis by blast
      next
        case ph: (Inr phaseSelector)
        from filterByPhaseSelector_stage [of phaseSelector] show ?thesis
        proof
          assume "\<exists>err. \<forall>pods. filterByPhaseSelector pods phaseSelector = Inl err"
          then obtain err where "\<forall>pods. filterByPhaseSelector pods phaseSelector = Inl err" ..
          then have "\<forall>pods. requirement_stages env selector pods = Inl err"
            by (simp add: requirement_stages_def ns p1 an ph)
          then show ?thesis by blast
        next
          assume "\<exists>P. \<forall>pods. filterByPhaseSelector pods phaseSelector = Inr (filter P pods)"
          then obtain P3 where
            p3: "\<forall>pods. filterByPhaseSelector pods phaseSelector = Inr (filter P3 pods)" ..
          have "\<forall>pods. requirement_stages env selector pods =
                  Inr (filter (\<lambda>p. P1 p \<and> P2 p \<and> P3 p) pods)"
            by (simp add: requirement_stages_def ns p1 an ph p2 p3 conj_commute conj_left_commute)
          then show ?thesis by blast
        qed
      qed
    qed
  qed
qed

lemma stage_member:
  assumes "(\<exists>err. \<forall>pods. f pods = Inl err) \<or> (\<exists>P. \<forall>pods. f pods = Inr (filter P pods))"
  shows "(\<exists>ps. f pool = Inr ps \<and> p \<in> set ps)
         \<longleftrightarrow> (p \<in> set pool \<and> (\<exists>ps. f [p] = Inr ps \<and> ps \<noteq> []))"
  using assms
proof
  assume "\<exists>err. \<forall>pods. f pods = Inl err"
  then show ?thesis by auto
next
  assume "\<exists>P. \<forall>pods. f pods = Inr (filter P pods)"
  then obtain P where "\<forall>pods. f pods = Inr (filter P pods)" ..
  then show ?thesis by auto
qed

lemma SelectorFromSet_no_labels:
  "ls \<noteq> [] \<Longrightarrow> \<not> Selector_Matches (SelectorFromSet ls) []"
  by (cases ls) (auto simp: Selector_Matches_def SelectorFromSet_def
                     Requirement_Matches_def Has_def)

lemma CheckPodMeetSelector_stages:
  assumes "Pods selector = []"
  shows "CheckPodMeetSelector env pod selector =
     (if \<not> labels_match selector pod then Inr False
      else case requirement_stages env selector [pod] of
             Inl err \<Rightarrow> Inl err
           | Inr pods \<Rightarrow> Inr (pods \<noteq> []))"
proof -
  have lm: "(length (LabelSelectors selector) > 0 \<and>
              (length (Labels pod) = 0 \<or>
               \<not> Selector_Matches (SelectorFromSet (LabelSelectors selector)) (Labels pod)))
            = (\<not> labels_match selector pod)"
    using SelectorFromSet_no_labels [of "LabelSelectors selector"]
    by (auto simp: labels_match_def)
  show ?thesis
    unfolding CheckPodMeetSelector_def lm
    by (simp add: assms requirement_stages_def split: sum.splits)
qed

lemma SelectPods_pool_stages:
  assumes "Pods selector = []" "Nodes selector = []" "NodeSelectors selector = []"
    "FieldSelectors selector = []"
  shows "SelectPods env (pool_Client fieldMatches pool nodes) selector =
     requirement_stages env selector
       (filterByNamespaces env (filter (labels_match selector) pool))"
proof -
  have "filter (\<lambda>p. (case (if LabelSelectors selector \<noteq> []
                           then Some (SelectorFromSet (LabelSelectors selector)) else None) of
                       None \<Rightarrow> True | Some sel \<Rightarrow> Selector_Matches sel (Labels p))) pool
        = filter (labels_match selector) pool"
    by (rule filter_cong) (auto simp: labels_match_def)
  then show ?thesis
    unfolding SelectPods_bulk [OF assms(1)]
    by (simp add: assms pool_Client_def)
qed

text \<open>
  C2, as the code has it. For a selector with no explicit \<open>Pods\<close> map and no node or
  field constraint, and a pod of the pool whose namespace the namespace policy allows,
  \<open>CheckPodMeetSelector\<close> returns true exactly when \<open>SelectPods\<close> over the pool returns
  a list that holds the pod. (The tester never consults the namespace policy, and with an
  explicit \<open>Pods\<close> map the pipeline returns the listed pods without any further check.)
\<close>

theorem CheckPodMeetSelector_agrees_with_SelectPods:
  assumes "Pods selector = []" "Nodes selector = []" "NodeSelectors selector = []"
    "FieldSelectors selector = []"
    and "pod \<in> set pool" "IsAllowedNamespaces env (Namespace pod)"
  shows "CheckPodMeetSelector env pod selector = Inr True
         \<longleftrightarrow> (\<exists>pods. SelectPods env (pool_Client fieldMatches pool nodes) selector = Inr pods
                     \<and> pod \<in> set pods)"
proof -
  have "(\<exists>pods. SelectPods env (pool_Client fieldMatches pool nodes) selector = Inr pods
                     \<and> pod \<in> set pods)
        \<longleftrightarrow> (pod \<in> set (filterByNamespaces env (filter (labels_match selector) pool))
             \<and> (\<exists>ps. requirement_stages env selector [pod] = Inr ps \<and> ps \<noteq> []))"
    unfolding SelectPods_pool_stages [OF assms(1-4)]
    by (rule stage_member [OF requirement_stages_stage])
  also have "\<dots> \<longleftrightarrow> (labels_match selector pod
             \<and> (\<exists>ps. requirement_stages env selector [pod] = Inr ps \<and> ps \<noteq> []))"
    using assms(5,6) by (simp add: filterByNamespaces_def)
  also have "\<dots> \<longleftrightarrow> CheckPodMeetSelector env pod selector = Inr True"
    unfolding CheckPodMeetSelector_stages [OF assms(1)]
    by (auto split: sum.splits)
  finally show ?thesis by simp
qed

theorem CheckPodMeetSelector_agrees_with_SelectPods_witness:
  "web0 \<in> set [web0, db0, dns0]
   \<and> IsAllowedNamespaces example_Env (Namespace web0)
   \<and> CheckPodMeetSelector example_Env web0
        (no_selector\<lparr>Namespaces := [''!kube-system''], LabelSelectors := [(''app'', ''web'')],
                       PodPhaseSelectors := [''Running'']\<rparr>) = Inr True
   \<and> (\<exists>pods. SelectPods example_Env (pool_Client (\<lambda>fs p. True) [web0, db0, dns0] [])
         (no_selector\<lparr>Namespaces := [''!kube-system''], LabelSelectors := [(''app'', ''web'')],
                        PodPhaseSelectors := [''Running'']\<rparr>) = Inr pods \<and> web0 \<in> set pods)
   \<and> CheckPodMeetSelector example_Env db0
        (no_selector\<lparr>Namespaces := [''!kube-system''], LabelSelectors := [(''app'', ''web'')],
                       PodPhaseSelectors := [''Running'']\<rparr>) = Inr False
   \<and> SelectPods example_Env (pool_Client (\<lambda>fs p. True) [web0, db0, dns0] [])
         (no_selector\<lparr>Namespaces := [''!kube-system''], LabelSelectors := [(''app'', ''web'')],
                        PodPhaseSelectors := [''Running'']\<rparr>) = Inr [web0]"
proof -
  let ?sel = "no_selector\<lparr>Namespaces := [''!kube-system''],
                LabelSelectors := [(''app'', ''web'')], PodPhaseSelectors := [''Running'']\<rparr>"
  have h1: "Pods ?sel = []" "Nodes ?sel = []" "NodeSelectors ?sel = []"
    "FieldSelectors ?sel = []" by (simp_all add: no_selector_def)
  have h2: "web0 \<in> set [web0, db0, dns0]" by simp
  have h3: "IsAllowedNamespaces example_Env (Namespace web0)"
    by (simp add: IsAllowedNamespaces_def example_defs)
  have c: "CheckPodMeetSelector example_Env web0 ?sel = Inr True"
    by (simp add: pipeline_defs example_defs)
  have d: "CheckPodMeetSelector example_Env db0 ?sel = Inr False"
    by (simp add: pipeline_defs example_defs)
  have e: "SelectPods example_Env (pool_Client (\<lambda>fs p. True) [web0, db0, dns0] []) ?sel
           = Inr [web0]"
    by (simp add: pipeline_defs example_defs)
  from CheckPodMeetSelector_agrees_with_SelectPods
         [OF h1 h2 h3, of "\<lambda>fs p. True" "[]"] c
  have "\<exists>pods. SelectPods example_Env (pool_Client (\<lambda>fs p. True) [web0, db0, dns0] []) ?sel
           = Inr pods \<and> web0 \<in> set pods" by simp
  with h2 h3 c d e show ?thesis by blast
qed

text \<open>
  Without those two conditions the two disagree. A pod in a namespace that the policy
  denies passes the tester and is dropped by the pipeline; a pod listed in the explicit
  map is returned by the pipeline although it fails the label selector, which the tester
  checks.
\<close>

theorem CheckPodMeetSelector_disagrees_with_SelectPods:
  "CheckPodMeetSelector example_Env dns0 no_selector = Inr True
   \<and> SelectPods example_Env (pool_Client (\<lambda>fs p. True) [web0, dns0] []) no_selector
       = Inr [web0]
   \<and> dns0 \<notin> set [web0]
   \<and> CheckPodMeetSelector example_Env web0
        (no_selector\<lparr>Pods := [(''default'', [''web-0''])],
                       LabelSelectors := [(''app'', ''db'')]\<rparr>) = Inr False
   \<and> SelectPods example_Env (pool_Client (\<lambda>fs p. True) [web0, dns0] [])
        (no_selector\<lparr>Pods := [(''default'', [''web-0''])],
                       LabelSelectors := [(''app'', ''db'')]\<rparr>) = Inr [web0]"
  by (simp add: pipeline_defs example_defs)

text \<open>
  C3. With \<open>selector.Pods = {"other": ["x"]}\<close> and a pod \<open>default/web-0\<close>, the loop of the
  explicit check skips the only entry, \<open>meet\<close> stays false and is not looked at after the
  loop: the tester returns true, while the pipeline for the same selector returns only
  what the map lists. A pod whose namespace is listed and whose name is not is rejected.
\<close>

theorem CheckPodMeetSelector_unlisted_namespace_passes:
  "CheckPodMeetSelector example_Env web0 (no_selector\<lparr>Pods := [(''other'', [''x''])]\<rparr>)
     = Inr True
   \<and> SelectPods example_Env (pool_Client (\<lambda>fs p. True) [web0] [])
        (no_selector\<lparr>Pods := [(''other'', [''x''])]\<rparr>) = Inr []
   \<and> CheckPodMeetSelector example_Env web0 (no_selector\<lparr>Pods := [(''default'', [''db-0''])]\<rparr>)
     = Inr False"
  by (simp add: pipeline_defs example_defs)

subsection \<open>Sampling a fixed percentage\<close>

lemma getFixedSubListFromPodList_loop_eq:
  "\<forall>x\<in>set indexes. unat x < length pods \<Longrightarrow>
   getFixedSubListFromPodList_loop pods indexes filteredPods =
     Inr (filteredPods @ map (\<lambda>x. pods ! unat x) indexes)"
proof (induction indexes arbitrary: filteredPods)
  case Nil
  show ?case by simp
next
  case (Cons index indexes)
  from Cons.prems have lt: "unat index < length pods" by simp
  then have "uint index < int (length pods)"
    by (metis of_nat_less_iff uint_nat)
  then have "index_pod pods (uint index) = Inr (pods ! unat index)"
    by (simp add: index_pod_def)
  with Cons show ?case by simp
qed

lemma getFixedSubListFromPodList_sample:
  assumes len: "length pods < 2 ^ 63" and num: "0 \<le> num" "num \<le> int (length pods)"
  shows "(nat num \<le> length (remdups (draws 0 (word_of_nat (length pods)) rs)) \<longrightarrow>
           (\<exists>idxs rs'. getFixedSubListFromPodList pods num rs
                          = Some (Inr (map (nth pods) idxs), rs')
              \<and> length idxs = nat num \<and> distinct idxs \<and> (\<forall>i\<in>set idxs. i < length pods)))
       \<and> (length (remdups (draws 0 (word_of_nat (length pods)) rs)) < nat num \<longrightarrow>
           getFixedSubListFromPodList pods num rs = None)"
proof -
  define N :: uint where "N = word_of_nat (length pods)"
  define K :: uint where "K = word_of_int num"
  have l64: "length pods < 2 ^ 64"
    using len by (rule less_trans) simp
  have uN: "unat N = length pods"
    unfolding N_def using l64 by (simp add: unat_of_nat take_bit_nat_eq_self)
  have "num < 2 ^ 64" using num(2) l64 by (metis of_nat_less_iff of_nat_numeral of_nat_power order_le_less_trans)
  then have "uint K = num" unfolding K_def using num(1)
    by (simp add: uint_word_of_int take_bit_int_eq_self)
  then have uK: "unat K = nat num" by (metis unat_eq_nat_uint)
  have KN: "K \<le> N" using uN uK num by (simp add: word_le_nat_alt nat_le_iff)
  have N63: "unat N < 2 ^ 63" using uN len by simp
  note s = RandomFixedIndexes_from_zero [OF N63 KN, of rs, unfolded uK]
  show ?thesis
  proof (intro conjI impI)
    assume "nat num \<le> length (remdups (draws 0 (word_of_nat (length pods)) rs))"
    then have "nat num \<le> length (remdups (draws 0 N rs))" by (simp add: N_def)
    with s obtain xs rs' where
      r: "RandomFixedIndexes 0 N K rs = Some (Inr xs, rs')" and l: "length xs = nat num"
      and d: "distinct xs" and b: "\<forall>x\<in>set xs. x < N" by blast
    have b': "\<forall>x\<in>set xs. unat x < length pods"
      using b uN by (auto simp: word_less_nat_alt)
    have "getFixedSubListFromPodList pods num rs
            = Some (Inr (map (nth pods) (map unat xs)), rs')"
      using r getFixedSubListFromPodList_loop_eq [OF b', of "[]"]
      by (simp add: getFixedSubListFromPodList_def N_def K_def comp_def)
    moreover have "length (map unat xs) = nat num" using l by simp
    moreover have "distinct (map unat xs)"
      using d by (auto simp: distinct_map inj_on_def word_unat_eq_iff)
    moreover have "\<forall>i\<in>set (map unat xs). i < length pods" using b' by simp
    ultimately show "\<exists>idxs rs'. getFixedSubListFromPodList pods num rs
                          = Some (Inr (map (nth pods) idxs), rs')
              \<and> length idxs = nat num \<and> distinct idxs \<and> (\<forall>i\<in>set idxs. i < length pods)"
      by blast
  next
    assume "length (remdups (draws 0 (word_of_nat (length pods)) rs)) < nat num"
    then have "length (remdups (draws 0 N rs)) < nat num" by (simp add: N_def)
    with s have "RandomFixedIndexes 0 N K rs = None" by blast
    then show "getFixedSubListFromPodList pods num rs = None"
      by (simp add: getFixedSubListFromPodList_def N_def K_def)
  qed
qed

lemma filterPodsByMode_FixedPercent:
  "pods \<noteq> [] \<Longrightarrow>
   filterPodsByMode pods FixedPercentPodMode value rs =
     (case Atoi value of
        Inl err \<Rightarrow> Some (Inl err, rs)
      | Inr percentage \<Rightarrow>
          if percentage = 0 then Some (Inl ValueBelowOrEqualZero, rs)
          else if percentage < 0 \<or> percentage > 100
            then Some (Inl (InvalidFixedPercentage percentage), rs)
          else getFixedSubListFromPodList pods ((int (length pods) * percentage) div 100) rs)"
  by (simp add: filterPodsByMode_def percent_num_def FixedPercentPodMode_def OnePodMode_def
        AllPodMode_def FixedPodMode_def split: sum.splits)

lemma percent_bounds:
  "0 < p \<Longrightarrow> p \<le> 100 \<Longrightarrow> 0 \<le> (n * p) div 100 \<and> (n * p) div 100 \<le> n" if "0 \<le> n" for n p :: int
proof -
  assume p: "0 < p" "p \<le> 100"
  have "0 \<le> n * p" using that p by simp
  then have a: "0 \<le> (n * p) div 100" by simp
  have "n * p \<le> n * 100" using that p by (simp add: mult_left_mono)
  then have "(n * p) div 100 \<le> (n * 100) div 100" by (rule zdiv_mono1) simp
  then have b: "(n * p) div 100 \<le> n" by simp
  from a b show ?thesis by simp
qed

lemmas sampling_defs =
  filterPodsByMode_def FixedPercentPodMode_def OnePodMode_def AllPodMode_def FixedPodMode_def
  percent_num_def getFixedSubListFromPodList_def RandomFixedIndexes_def
  RandomFixedIndexes_loop.simps rand_Intn_def index_pod_def Atoi_def digit_value_def

text \<open>
  C8. In the fixed-percent mode on a pool that is not empty, \<open>filterPodsByMode\<close> returns
  an error exactly when \<open>strconv.Atoi\<close> rejects the value (it is not an integer), or the
  value is \<open>0\<close>, or it lies outside \<open>(0, 100]\<close>. For a value \<open>p\<close> in \<open>(0, 100]\<close> it
  returns \<open>floor(len(pods) * p / 100)\<close> pods, taken at pairwise different positions of
  the pool, as soon as the random source has given that many different indexes (and does
  not return on a source that gives fewer). So \<open>p = 100\<close> on seven pods returns all
  seven, \<open>p = 50\<close> returns three, and a count of zero is the empty list without an
  error. The pool is shorter than \<open>2 ^ 46\<close>: there \<open>len(pods) * p\<close> is below \<open>2 ^ 53\<close>,
  the \<open>float64\<close> product is exact, and the floor of the rounded quotient is the integer
  quotient.
\<close>

theorem FixedPercent_error_iff_and_count:
  assumes "pods \<noteq> []" "length pods < 2 ^ 46"
  shows "((\<exists>err rs'. filterPodsByMode pods FixedPercentPodMode value rs = Some (Inl err, rs'))
          \<longleftrightarrow> (case Atoi value of Inl e \<Rightarrow> True | Inr p \<Rightarrow> p = 0 \<or> p < 0 \<or> 100 < p))
       \<and> (\<forall>p. Atoi value = Inr p \<and> 0 < p \<and> p \<le> 100 \<longrightarrow>
            (nat ((int (length pods) * p) div 100)
               \<le> length (remdups (draws 0 (word_of_nat (length pods)) rs)) \<longrightarrow>
             (\<exists>idxs rs'. filterPodsByMode pods FixedPercentPodMode value rs
                            = Some (Inr (map (nth pods) idxs), rs')
                \<and> int (length idxs) = (int (length pods) * p) div 100
                \<and> distinct idxs \<and> (\<forall>i\<in>set idxs. i < length pods)))
          \<and> (length (remdups (draws 0 (word_of_nat (length pods)) rs))
               < nat ((int (length pods) * p) div 100) \<longrightarrow>
             filterPodsByMode pods FixedPercentPodMode value rs = None))"
proof -
  have len63: "length pods < 2 ^ 63"
    using assms(2) by (rule less_trans) simp
  note f = filterPodsByMode_FixedPercent [OF assms(1), of "value" rs]
  have valid: "\<And>p. Atoi value = Inr p \<Longrightarrow> 0 < p \<Longrightarrow> p \<le> 100 \<Longrightarrow>
      filterPodsByMode pods FixedPercentPodMode value rs
        = getFixedSubListFromPodList pods ((int (length pods) * p) div 100) rs"
    unfolding f by simp
  have smp: "\<And>p. 0 < p \<Longrightarrow> p \<le> 100 \<Longrightarrow>
      (nat ((int (length pods) * p) div 100)
           \<le> length (remdups (draws 0 (word_of_nat (length pods)) rs)) \<longrightarrow>
         (\<exists>idxs rs'. getFixedSubListFromPodList pods ((int (length pods) * p) div 100) rs
                          = Some (Inr (map (nth pods) idxs), rs')
              \<and> length idxs = nat ((int (length pods) * p) div 100)
              \<and> distinct idxs \<and> (\<forall>i\<in>set idxs. i < length pods)))
       \<and> (length (remdups (draws 0 (word_of_nat (length pods)) rs))
             < nat ((int (length pods) * p) div 100) \<longrightarrow>
           getFixedSubListFromPodList pods ((int (length pods) * p) div 100) rs = None)"
  proof -
    fix p :: int assume p: "0 < p" "p \<le> 100"
    from percent_bounds [of "int (length pods)" p, OF _ p]
    have b: "0 \<le> (int (length pods) * p) div 100"
            "(int (length pods) * p) div 100 \<le> int (length pods)" by simp_all
    from getFixedSubListFromPodList_sample [OF len63 b, of rs]
    show "(nat ((int (length pods) * p) div 100)
           \<le> length (remdups (draws 0 (word_of_nat (length pods)) rs)) \<longrightarrow>
         (\<exists>idxs rs'. getFixedSubListFromPodList pods ((int (length pods) * p) div 100) rs
                          = Some (Inr (map (nth pods) idxs), rs')
              \<and> length idxs = nat ((int (length pods) * p) div 100)
              \<and> distinct idxs \<and> (\<forall>i\<in>set idxs. i < length pods)))
       \<and> (length (remdups (draws 0 (word_of_nat (length pods)) rs))
             < nat ((int (length pods) * p) div 100) \<longrightarrow>
           getFixedSubListFromPodList pods ((int (length pods) * p) div 100) rs = None)" .
  qed
  have noerr: "\<And>p. 0 < p \<Longrightarrow> p \<le> 100 \<Longrightarrow>
      \<not> (\<exists>err rs'. getFixedSubListFromPodList pods ((int (length pods) * p) div 100) rs
                      = Some (Inl err, rs'))"
  proof -
    fix p :: int assume p: "0 < p" "p \<le> 100"
    from smp [OF p] show "\<not> (\<exists>err rs'.
        getFixedSubListFromPodList pods ((int (length pods) * p) div 100) rs
          = Some (Inl err, rs'))"
      by (cases "nat ((int (length pods) * p) div 100)
                   \<le> length (remdups (draws 0 (word_of_nat (length pods)) rs))") auto
  qed
  show ?thesis
  proof (intro conjI allI impI)
    show "(\<exists>err rs'. filterPodsByMode pods FixedPercentPodMode value rs = Some (Inl err, rs'))
          \<longleftrightarrow> (case Atoi value of Inl e \<Rightarrow> True | Inr p \<Rightarrow> p = 0 \<or> p < 0 \<or> 100 < p)"
    proof (cases "Atoi value")
      case (Inl e)
      then show ?thesis unfolding f by simp
    next
      case (Inr p)
      show ?thesis
      proof (cases "0 < p \<and> p \<le> 100")
        case True
        then show ?thesis using noerr [of p] valid [OF Inr] Inr by auto
      next
        case False
        then show ?thesis unfolding f using Inr by auto
      qed
    qed
  next
    fix p
    assume a: "Atoi value = Inr p \<and> 0 < p \<and> p \<le> 100"
      and e: "nat ((int (length pods) * p) div 100)
               \<le> length (remdups (draws 0 (word_of_nat (length pods)) rs))"
    from a have v: "filterPodsByMode pods FixedPercentPodMode value rs
        = getFixedSubListFromPodList pods ((int (length pods) * p) div 100) rs"
      using valid by simp
    from a percent_bounds [of "int (length pods)" p]
    have nn: "0 \<le> (int (length pods) * p) div 100" by simp
    from smp [of p] a e obtain idxs rs' where
      "getFixedSubListFromPodList pods ((int (length pods) * p) div 100) rs
         = Some (Inr (map (nth pods) idxs), rs')"
      "length idxs = nat ((int (length pods) * p) div 100)"
      "distinct idxs" "\<forall>i\<in>set idxs. i < length pods" by blast
    then show "\<exists>idxs rs'. filterPodsByMode pods FixedPercentPodMode value rs
                            = Some (Inr (map (nth pods) idxs), rs')
                \<and> int (length idxs) = (int (length pods) * p) div 100
                \<and> distinct idxs \<and> (\<forall>i\<in>set idxs. i < length pods)"
      unfolding v using nn by auto
  next
    fix p
    assume a: "Atoi value = Inr p \<and> 0 < p \<and> p \<le> 100"
      and e: "length (remdups (draws 0 (word_of_nat (length pods)) rs))
               < nat ((int (length pods) * p) div 100)"
    from a have v: "filterPodsByMode pods FixedPercentPodMode value rs
        = getFixedSubListFromPodList pods ((int (length pods) * p) div 100) rs"
      using valid by simp
    from smp [of p] a e show "filterPodsByMode pods FixedPercentPodMode value rs = None"
      unfolding v by blast
  qed
qed

theorem FixedPercent_error_iff_and_count_witness:
  "pool7 \<noteq> [] \<and> length pool7 < 2 ^ 46
   \<and> Atoi ''50'' = Inr 50
   \<and> nat ((int (length pool7) * 50) div 100)
        \<le> length (remdups (draws 0 (word_of_nat (length pool7)) [3, 0, 10, 6, 1]))
   \<and> (\<exists>idxs rs'. filterPodsByMode pool7 FixedPercentPodMode ''50'' [3, 0, 10, 6, 1]
                    = Some (Inr (map (nth pool7) idxs), rs')
          \<and> int (length idxs) = (int (length pool7) * 50) div 100
          \<and> distinct idxs \<and> (\<forall>i\<in>set idxs. i < length pool7))
   \<and> filterPodsByMode pool7 FixedPercentPodMode ''50'' [3, 0, 10, 6, 1]
       = Some (Inr [pool7 ! 3, pool7 ! 0, pool7 ! 6], [1])
   \<and> filterPodsByMode pool7 FixedPercentPodMode ''100'' [3, 0, 6, 1, 1, 5, 2, 4]
       = Some (Inr [pool7 ! 3, pool7 ! 0, pool7 ! 6, pool7 ! 1, pool7 ! 5, pool7 ! 2, pool7 ! 4],
               [])
   \<and> filterPodsByMode [web0] FixedPercentPodMode ''50'' [9] = Some (Inr [], [9])
   \<and> filterPodsByMode pool7 FixedPercentPodMode ''50'' [3, 3] = None
   \<and> filterPodsByMode pool7 FixedPercentPodMode ''abc'' [3]
       = Some (Inl (NumError ''abc'' False), [3])
   \<and> filterPodsByMode pool7 FixedPercentPodMode ''0'' [3]
       = Some (Inl ValueBelowOrEqualZero, [3])
   \<and> filterPodsByMode pool7 FixedPercentPodMode ''101'' [3]
       = Some (Inl (InvalidFixedPercentage 101), [3])
   \<and> filterPodsByMode pool7 FixedPercentPodMode ''-5'' [3]
       = Some (Inl (InvalidFixedPercentage (- 5)), [3])"
proof -
  have h1: "pool7 \<noteq> []" by (simp add: pool7_def)
  have h2: "length pool7 < 2 ^ 46" by (simp add: pool7_def)
  have a: "Atoi ''50'' = Inr 50" by (simp add: Atoi_def digit_value_def)
  have e: "nat ((int (length pool7) * 50) div 100)
        \<le> length (remdups (draws 0 (word_of_nat (length pool7)) [3, 0, 10, 6, 1]))"
    by (simp add: pool7_def draws_def)
  from FixedPercent_error_iff_and_count
         [OF h1 h2, of "''50''" "[3, 0, 10, 6, 1]", THEN conjunct2, rule_format, of 50,
          THEN conjunct1, rule_format] a e
  have t: "\<exists>idxs rs'. filterPodsByMode pool7 FixedPercentPodMode ''50'' [3, 0, 10, 6, 1]
                    = Some (Inr (map (nth pool7) idxs), rs')
          \<and> int (length idxs) = (int (length pool7) * 50) div 100
          \<and> distinct idxs \<and> (\<forall>i\<in>set idxs. i < length pool7)"
    by simp
  have v1: "filterPodsByMode pool7 FixedPercentPodMode ''50'' [3, 0, 10, 6, 1]
       = Some (Inr [pool7 ! 3, pool7 ! 0, pool7 ! 6], [1])"
    by (simp add: sampling_defs pool7_def)
  have v2: "filterPodsByMode pool7 FixedPercentPodMode ''100'' [3, 0, 6, 1, 1, 5, 2, 4]
       = Some (Inr [pool7 ! 3, pool7 ! 0, pool7 ! 6, pool7 ! 1, pool7 ! 5, pool7 ! 2, pool7 ! 4],
               [])"
    by (simp add: sampling_defs pool7_def)
  have v3: "filterPodsByMode [web0] FixedPercentPodMode ''50'' [9] = Some (Inr [], [9])"
    by (simp add: sampling_defs)
  have v4: "filterPodsByMode pool7 FixedPercentPodMode ''50'' [3, 3] = None"
    by (simp add: sampling_defs pool7_def)
  have v5: "filterPodsByMode pool7 FixedPercentPodMode ''abc'' [3]
       = Some (Inl (NumError ''abc'' False), [3])"
    by (simp add: sampling_defs pool7_def)
  have v6: "filterPodsByMode pool7 FixedPercentPodMode ''0'' [3]
       = Some (Inl ValueBelowOrEqualZero, [3])"
    by (simp add: sampling_defs pool7_def)
  have v7: "filterPodsByMode pool7 FixedPercentPodMode ''101'' [3]
       = Some (Inl (InvalidFixedPercentage 101), [3])"
    by (simp add: sampling_defs pool7_def)
  have v8: "filterPodsByMode pool7 FixedPercentPodMode ''-5'' [3]
       = Some (Inl (InvalidFixedPercentage (- 5)), [3])"
    by (simp add: sampling_defs pool7_def)
  from h1 h2 a e t v1 v2 v3 v4 v5 v6 v7 v8 show ?thesis by blast
qed

end
